theory Spec2Isabelle
  imports
    Main
    "HOL-Library.Word"
    "HOL-Library.Char_ord"
    "HOL-Library.List_Lexorder"
    "HOL-Library.Multiset"
begin

section \<open>JavaScript values used by the server\<close>

text \<open>
  The server of the repository exists in two variants with the same routes: the MinIO
  variant (streaming the object through the process) and the Cloudflare R2 variant
  (multipart upload, redirect to a signed URL).  The definitions below follow the
  JavaScript of both, route by route.

  A JavaScript number is an IEEE 754 double.  The numbers that the range code computes
  are \<open>NaN\<close>, the two infinities, or integers: \<open>parseInt\<close> yields nothing else, and \<open>+\<close>,
  \<open>-\<close> keep it so.  An integer result is rounded to the nearest double (53 bits of
  significand, ties to even), and becomes an infinity from \<open>2^1024\<close> on.
\<close>

type_synonym byte = "8 word"
type_synonym bytes = "byte list"

datatype jsnum = NaN | Num int | PosInfinity | NegInfinity

function bit_length :: "int \<Rightarrow> nat" where
  "bit_length a = (if a \<le> 0 then 0 else Suc (bit_length (a div 2)))"
  by pat_completeness auto
termination
  by (relation "measure nat") auto

declare bit_length.simps [simp del]

text \<open>
  The double nearest to an integer.  Every integer up to \<open>2^53\<close> in absolute value is a
  double; a larger one keeps its 53 leading bits, rounded to nearest, ties to even.
\<close>

definition to_double :: "int \<Rightarrow> jsnum" where
  "to_double n =
     (let a = \<bar>n\<bar> in
      if a \<le> 2 ^ 53 then Num n
      else let e = bit_length a - 53;
               q = a div 2 ^ e;
               r = a mod 2 ^ e;
               half = 2 ^ (e - 1);
               q' = (if r > half \<or> (r = half \<and> odd q) then q + 1 else q);
               v = q' * 2 ^ e
           in if v \<ge> 2 ^ 1024 then (if n < 0 then NegInfinity else PosInfinity)
              else Num (if n < 0 then - v else v))"

fun js_neg :: "jsnum \<Rightarrow> jsnum" where
  "js_neg NaN = NaN"
| "js_neg (Num a) = Num (- a)"
| "js_neg PosInfinity = NegInfinity"
| "js_neg NegInfinity = PosInfinity"

fun js_add :: "jsnum \<Rightarrow> jsnum \<Rightarrow> jsnum" where
  "js_add (Num a) (Num b) = to_double (a + b)"
| "js_add NaN _ = NaN"
| "js_add _ NaN = NaN"
| "js_add PosInfinity NegInfinity = NaN"
| "js_add NegInfinity PosInfinity = NaN"
| "js_add PosInfinity _ = PosInfinity"
| "js_add _ PosInfinity = PosInfinity"
| "js_add NegInfinity _ = NegInfinity"
| "js_add _ NegInfinity = NegInfinity"

definition js_sub :: "jsnum \<Rightarrow> jsnum \<Rightarrow> jsnum" where
  "js_sub a b = js_add a (js_neg b)"

text \<open>Every comparison with \<open>NaN\<close> is false.\<close>

fun js_ge :: "jsnum \<Rightarrow> jsnum \<Rightarrow> bool" where
  "js_ge (Num a) (Num b) = (a \<ge> b)"
| "js_ge PosInfinity (Num _) = True"
| "js_ge PosInfinity PosInfinity = True"
| "js_ge PosInfinity NegInfinity = True"
| "js_ge (Num _) NegInfinity = True"
| "js_ge NegInfinity NegInfinity = True"
| "js_ge _ _ = False"

fun js_lt :: "jsnum \<Rightarrow> jsnum \<Rightarrow> bool" where
  "js_lt (Num a) (Num b) = (a < b)"
| "js_lt (Num _) PosInfinity = True"
| "js_lt NegInfinity (Num _) = True"
| "js_lt NegInfinity PosInfinity = True"
| "js_lt _ _ = False"

fun js_gt :: "jsnum \<Rightarrow> jsnum \<Rightarrow> bool" where
  "js_gt (Num a) (Num b) = (a > b)"
| "js_gt PosInfinity (Num _) = True"
| "js_gt PosInfinity NegInfinity = True"
| "js_gt (Num _) NegInfinity = True"
| "js_gt _ _ = False"

subsection \<open>Numbers to strings and back\<close>

definition digit_char :: "nat \<Rightarrow> char" where
  "digit_char d = char_of (48 + d)"

fun show_nat :: "nat \<Rightarrow> string" where
  "show_nat n = (if n < 10 then [digit_char n] else show_nat (n div 10) @ [digit_char (n mod 10)])"

declare show_nat.simps [simp del]

function show_dec :: "int \<Rightarrow> string" where
  "show_dec n = (if n < 10 then [digit_char (nat n)]
                 else show_dec (n div 10) @ [digit_char (nat (n mod 10))])"
  by pat_completeness auto
termination
  by (relation "measure nat") auto

declare show_dec.simps [simp del]

text \<open>
  \<open>String(x)\<close> and \<open>`${x}`\<close> for a number (\<open>Number::toString\<close> of ECMAScript).  For a
  positive integer double \<open>x\<close> the digits are those of the integer \<open>s\<close> with the fewest
  digits \<open>k\<close> such that \<open>s * 10^(n - k)\<close> is read back as \<open>x\<close>; among several such
  \<open>s\<close> the one nearest to \<open>x\<close>, then the even one.  They are printed as an integer
  followed by zeros when \<open>n \<le> 21\<close>, and as \<open>d.ddde+N\<close> with \<open>N = n - 1\<close> otherwise.
  Up to \<open>2^53\<close> every integer is a double of its own, and the digits are all its digits.

  For \<open>k\<close> digits the only candidates are the multiples of \<open>10^(d - k)\<close> just below
  and just above \<open>x\<close>, where \<open>d\<close> is the number of digits of \<open>x\<close>; the upper one may
  be \<open>10^d\<close>, which has one digit and \<open>n = d + 1\<close>.
\<close>

definition digit_candidates :: "int \<Rightarrow> nat \<Rightarrow> nat \<Rightarrow> (int \<times> nat) list" where
  "digit_candidates x d k =
     [(s, d). s \<leftarrow> [x div 10 ^ (d - k), x div 10 ^ (d - k) + 1],
              s < 10 ^ k, to_double (s * 10 ^ (d - k)) = Num x]
     @ (if k = 1 \<and> to_double (10 ^ d) = Num x then [(1, Suc d)] else [])"

fun first_candidates :: "int \<Rightarrow> nat \<Rightarrow> nat list \<Rightarrow> nat \<times> (int \<times> nat) list" where
  "first_candidates x d [] = (d, [(x, d)])"
| "first_candidates x d (k # ks) =
     (let cs = digit_candidates x d k
      in if cs = [] then first_candidates x d ks else (k, cs))"

definition closer :: "int \<Rightarrow> nat \<Rightarrow> int \<times> nat \<Rightarrow> int \<times> nat \<Rightarrow> int \<times> nat" where
  "closer x k c1 c2 =
     (let d1 = \<bar>fst c1 * 10 ^ (snd c1 - k) - x\<bar>;
          d2 = \<bar>fst c2 * 10 ^ (snd c2 - k) - x\<bar>
      in if d1 < d2 then c1 else if d2 < d1 then c2 else if even (fst c1) then c1 else c2)"

definition shortest_digits :: "int \<Rightarrow> int \<times> nat" where
  "shortest_digits x =
     (let d = length (show_dec x);
          (k, cs) = first_candidates x d [1..<Suc d]
      in foldl (closer x k) (hd cs) (tl cs))"

definition show_double :: "int \<Rightarrow> string" where
  "show_double x =
     (if x \<le> 2 ^ 53 then show_dec x
      else let (s, n) = shortest_digits x;
               ds = show_dec s;
               k = length ds
           in if n \<le> 21 then ds @ replicate (n - k) (CHR ''0'')
              else (if k = 1 then ds else hd ds # CHR ''.'' # tl ds) @ ''e+'' @ show_nat (n - 1))"

fun js_show :: "jsnum \<Rightarrow> string" where
  "js_show NaN = ''NaN''"
| "js_show PosInfinity = ''Infinity''"
| "js_show NegInfinity = ''-Infinity''"
| "js_show (Num i) = (if i < 0 then CHR ''-'' # show_double (- i) else show_double i)"

text \<open>
  \<open>parseInt(s, 10)\<close>: leading white space is skipped, one sign is read, then the longest
  run of decimal digits; no digit at all gives \<open>NaN\<close>.  The result is the double nearest
  to the value of the digits (what V8, the engine of Node.js, computes).  A header value
  reaches the code decoded as Latin-1, where the white space of JavaScript is the six
  ASCII characters and the no-break space.
\<close>

definition is_js_space :: "char \<Rightarrow> bool" where
  "is_js_space c = (of_char c \<in> {9, 10, 11, 12, 13, 32, 160 :: nat})"

definition is_digit :: "char \<Rightarrow> bool" where
  "is_digit c = (48 \<le> (of_char c :: nat) \<and> (of_char c :: nat) \<le> 57)"

definition digit_val :: "char \<Rightarrow> int" where
  "digit_val c = int (of_char c) - 48"

definition digits_value :: "string \<Rightarrow> int" where
  "digits_value ds = foldl (\<lambda>a c. 10 * a + digit_val c) 0 ds"

definition parseInt :: "string \<Rightarrow> jsnum" where
  "parseInt s =
     (let t = dropWhile is_js_space s;
          neg = (t \<noteq> [] \<and> hd t = CHR ''-'');
          u = (if t \<noteq> [] \<and> (hd t = CHR ''-'' \<or> hd t = CHR ''+'') then tl t else t);
          ds = takeWhile is_digit u
      in if ds = [] then NaN
         else to_double ((if neg then - 1 else 1) * digits_value ds))"

text \<open>\<open>s.replace(/bytes=/, '')\<close>: the first occurrence of the pattern is removed.\<close>

fun replace_first :: "string \<Rightarrow> string \<Rightarrow> string" where
  "replace_first pat [] = []"
| "replace_first pat (c # cs) =
     (if take (length pat) (c # cs) = pat then drop (length pat) (c # cs)
      else c # replace_first pat cs)"

text \<open>\<open>s.split('-')\<close>: the empty string splits into one empty part.\<close>

fun split_on :: "char \<Rightarrow> string \<Rightarrow> string list" where
  "split_on d [] = [[]]"
| "split_on d (c # cs) =
     (if c = d then [] # split_on d cs
      else (case split_on d cs of
              [] \<Rightarrow> [[c]]
            | p # ps \<Rightarrow> (c # p) # ps))"

text \<open>\<open>s.endsWith(t)\<close>.\<close>

definition endsWith :: "string \<Rightarrow> string \<Rightarrow> bool" where
  "endsWith s t = (length t \<le> length s \<and> drop (length s - length t) s = t)"

section \<open>The range branch of \<open>GET /api/stream/:videoId\<close>\<close>

text \<open>
  \<open>parts[0]\<close> always exists; \<open>parts[1]\<close> is used when it exists and is not the empty
  string, otherwise the end is \<open>fileSize - 1\<close>.

  The size of an object and the counter of the bytes read are natural numbers here.
  They are doubles in the code, which are exact below \<open>2^53\<close>; the statements on the
  range branch are made for objects of fewer than \<open>2^53\<close> bytes (the store holds no
  larger one: the limit of MinIO is 50 TiB).
\<close>

definition range_parts :: "string \<Rightarrow> string list" where
  "range_parts rangeHdr = split_on (CHR ''-'') (replace_first ''bytes='' rangeHdr)"

definition range_start :: "string \<Rightarrow> jsnum" where
  "range_start rangeHdr = parseInt (hd (range_parts rangeHdr))"

definition range_end :: "string \<Rightarrow> nat \<Rightarrow> jsnum" where
  "range_end rangeHdr fileSize =
     (case tl (range_parts rangeHdr) of
        [] \<Rightarrow> Num (int fileSize - 1)
      | p # _ \<Rightarrow> if p \<noteq> [] then parseInt p else Num (int fileSize - 1))"

text \<open>
  The \<open>data\<close> listener, run over the chunks the object stream delivers, with the
  counter \<open>bytesRead\<close>.  The result is the list of chunks handed to \<open>res.write\<close>.
  A chunk is written whole or not at all.  When the counter reaches \<open>end\<close> the stream is
  destroyed and the response ended, so no later chunk is seen; when the chunks run out,
  the \<open>end\<close> listener ends the response.
\<close>

fun on_data :: "jsnum \<Rightarrow> jsnum \<Rightarrow> nat \<Rightarrow> bytes list \<Rightarrow> bytes list" where
  "on_data start end bytesRead [] = []"
| "on_data start end bytesRead (chunk # rest) =
     (let written = (if js_ge (Num (int bytesRead)) start \<and> js_lt (Num (int bytesRead)) end
                     then [chunk] else []);
          bytesRead' = bytesRead + length chunk
      in if js_ge (Num (int bytesRead')) end then written
         else written @ on_data start end bytesRead' rest)"

section \<open>Records, stores and the outcomes of external services\<close>

text \<open>
  The Mongoose schema \<open>Video\<close>.  The duration is the number \<open>ffprobe\<close> reports; the
  handlers only copy it, so its type is left open.  The \<open>_id\<close> that MongoDB adds is
  not modelled.  The view count is a natural number; in the code it is a double, which
  starts at 0 and to which adding 1 is exact below \<open>2^53\<close>.
\<close>

record 'd video =
  videoId :: string
  title :: string
  description :: string
  filename :: string
  duration :: 'd
  thumbnailCount :: nat
  views :: nat
  createdAt :: nat

datatype error =
    ProbeError | ScreenshotsError | ENOENT | PutError | SaveError | DuplicateKey
  | SignError | ListBucketsError | LIMIT_FILE_SIZE

text \<open>The calls made to external services, in the order they are made.\<close>

datatype event =
    Ffprobe string
  | Screenshots string string nat
  | PutObject string string nat
  | PutObjectCommand string string
  | MultipartUpload string string nat nat bool
  | Save string

text \<open>
  \<open>PutObject objectName contentType size\<close> is \<open>minioClient.putObject\<close>;
  \<open>PutObjectCommand key contentType\<close> is the single request of the R2 client;
  \<open>MultipartUpload key contentType partSize queueSize progress\<close> is a
  \<open>lib-storage\<close> \<open>Upload\<close> with these options, \<open>progress\<close> telling that a
  listener of \<open>httpUploadProgress\<close> was attached before \<open>done()\<close>.

  The state: regular files on the local disk by path, directories with their entries in
  the order \<open>readdirSync\<close> lists them, the bucket (content type and bytes by key), the
  collection of records, and the calls made so far.
\<close>

record 'd world =
  files :: "string \<rightharpoonup> bytes"
  dirs :: "string \<rightharpoonup> string list"
  bucket :: "string \<rightharpoonup> string \<times> bytes"
  db :: "'d video list"
  trace :: "event list"

text \<open>
  What the outside decides during one request: the result of \<open>ffprobe\<close>, the files
  \<open>ffmpeg\<close> writes into the folder and whether it ends without error, the keys whose
  upload the object store rejects, whether the database rejects a save or a query, the
  clock, the name multer generates for the stored part, how the object stream cuts an
  object into chunks, the signed URL of a key, and what the health route sees.
\<close>

record 'd env =
  ffprobe :: "error + 'd"
  screenshots :: "(string \<times> bytes) list"
  screenshots_ok :: bool
  put_fails :: "string \<Rightarrow> bool"
  save_fails :: bool
  find_fails :: bool
  now :: nat
  random_name :: string
  chunking :: "bytes \<Rightarrow> bytes list"
  getSignedUrl :: "string \<Rightarrow> error + string"
  mongo_ready :: bool
  listBuckets :: "error + nat"
  url_of :: "string \<Rightarrow> string"

text \<open>
  \<open>url_of\<close> stands for \<open>getMinioUrl\<close> and \<open>getR2Url\<close>, which format a URL from the
  key and the process environment and touch no state.
\<close>

datatype variant = MinIO | R2

datatype 'd body =
    Error string
  | UploadFailed error
  | Uploaded string string 'd
  | Videos "('d video \<times> string list) list"
  | VideoBody "'d video" "string list"
  | Stream "(string \<times> string) list" bytes
  | Redirect string
  | Healthy bool bool
  | Unhealthy error

datatype 'd response = Response nat "'d body"

subsection \<open>File system calls\<close>

definition existsSync :: "'d world \<Rightarrow> string \<Rightarrow> bool" where
  "existsSync w p = (files w p \<noteq> None \<or> dirs w p \<noteq> None)"

definition unlinkSync :: "'d world \<Rightarrow> string \<Rightarrow> error + 'd world" where
  "unlinkSync w p =
     (case files w p of
        None \<Rightarrow> Inl ENOENT
      | Some _ \<Rightarrow> Inr (w\<lparr>files := (files w)(p := None)\<rparr>))"

definition path_join :: "string \<Rightarrow> string \<Rightarrow> string" where
  "path_join a b = (if b = [] then a else a @ ''/'' @ b)"

text \<open>\<open>fs.rmSync(d, {recursive: true, force: true})\<close>: no error when \<open>d\<close> is absent.\<close>

definition rmSync :: "'d world \<Rightarrow> string \<Rightarrow> 'd world" where
  "rmSync w d =
     (case dirs w d of
        None \<Rightarrow> w\<lparr>files := (files w)(d := None)\<rparr>
      | Some entries \<Rightarrow>
          w\<lparr>files := fold (\<lambda>n m. m(path_join d n := None)) entries (files w),
            dirs := (dirs w)(d := None)\<rparr>)"

text \<open>
  \<open>path.parse(p).name\<close>: the last segment of the path without its extension.  A name
  that starts with its only dot keeps it.
\<close>

definition basename :: "string \<Rightarrow> string" where
  "basename p = rev (takeWhile (\<lambda>c. c \<noteq> CHR ''/'') (dropWhile (\<lambda>c. c = CHR ''/'') (rev p)))"

definition path_parse_name :: "string \<Rightarrow> string" where
  "path_parse_name p =
     (let b = basename p;
          ext = rev (takeWhile (\<lambda>c. c \<noteq> CHR ''.'') (rev b));
          stem = take (length b - length ext - 1) b
      in if CHR ''.'' \<notin> set b \<or> stem = [] \<or> b = ''..'' then b else stem)"

text \<open>A string that may be \<open>undefined\<close> is truthy when it is defined and not empty.\<close>

definition truthy :: "string option \<Rightarrow> bool" where
  "truthy s = (case s of None \<Rightarrow> False | Some t \<Rightarrow> t \<noteq> [])"

section \<open>The ingestion pipeline of \<open>POST /api/upload\<close>\<close>

text \<open>
  \<open>multer({dest: 'uploads/videos', limits: {fileSize}})\<close> with \<open>upload.single('video')\<close>
  runs before the handler.  It writes the part named \<open>video\<close> to a file with a generated
  name under \<open>uploads/videos\<close> and describes it in \<open>req.file\<close>; a part above the limit
  is removed again and the handler is not called.
\<close>

record form =
  video_part :: "bytes option"
  title_field :: "string option"
  description_field :: "string option"

record multer_file =
  file_path :: string
  file_name :: string

definition fileSize_limit :: "variant \<Rightarrow> nat" where
  "fileSize_limit v = (case v of MinIO \<Rightarrow> 500 * 1024 * 1024 | R2 \<Rightarrow> 5 * 1024 * 1024 * 1024)"

definition multer_single :: "variant \<Rightarrow> 'd env \<Rightarrow> 'd world \<Rightarrow> form \<Rightarrow> error + (multer_file option \<times> 'd world)" where
  "multer_single v e w f =
     (case video_part f of
        None \<Rightarrow> Inr (None, w)
      | Some content \<Rightarrow>
          if length content > fileSize_limit v then Inl LIMIT_FILE_SIZE
          else let p = ''uploads/videos/'' @ random_name e
               in Inr (Some \<lparr>file_path = p, file_name = random_name e\<rparr>,
                       w\<lparr>files := (files w)(p \<mapsto> content)\<rparr>))"

definition getVideoMetadata :: "'d env \<Rightarrow> 'd world \<Rightarrow> string \<Rightarrow> (error + 'd) \<times> 'd world" where
  "getVideoMetadata e w videoPath = (ffprobe e, w\<lparr>trace := trace w @ [Ffprobe videoPath]\<rparr>)"

text \<open>
  \<open>generateThumbnails\<close> creates the folder when it is absent and lets \<open>ffmpeg\<close> write
  into it; a failed run keeps what was written.
\<close>

definition generateThumbnails :: "'d env \<Rightarrow> 'd world \<Rightarrow> string \<Rightarrow> string \<Rightarrow> nat \<Rightarrow> error option \<times> 'd world" where
  "generateThumbnails e w videoPath outputDir cnt =
     (let old = (case dirs w outputDir of None \<Rightarrow> [] | Some entries \<Rightarrow> entries);
          names = map fst (screenshots e);
          w' = w\<lparr>files := fold (\<lambda>(n, b) m. m(path_join outputDir n \<mapsto> b)) (screenshots e) (files w),
                 dirs := (dirs w)(outputDir \<mapsto> old @ filter (\<lambda>n. n \<notin> set old) names),
                 trace := trace w @ [Screenshots videoPath outputDir cnt]\<rparr>
      in (if screenshots_ok e then None else Some ScreenshotsError, w'))"

text \<open>
  \<open>uploadToMinio\<close>: \<open>statSync\<close> throws for a missing file; then one \<open>putObject\<close> with
  the stream and the size, whatever the size is.
\<close>

definition uploadToMinio :: "'d env \<Rightarrow> 'd world \<Rightarrow> string \<Rightarrow> string \<Rightarrow> string \<Rightarrow> error option \<times> 'd world" where
  "uploadToMinio e w filePath objectName contentType =
     (case files w filePath of
        None \<Rightarrow> (Some ENOENT, w)
      | Some content \<Rightarrow>
          let w' = w\<lparr>trace := trace w @ [PutObject objectName contentType (length content)]\<rparr>
          in if put_fails e objectName then (Some PutError, w')
             else (None, w'\<lparr>bucket := (bucket w)(objectName \<mapsto> (contentType, content))\<rparr>))"

text \<open>
  \<open>uploadToR2\<close>: below \<open>100 * 1024 * 1024\<close> bytes the file is read and sent in one
  \<open>PutObjectCommand\<close>; otherwise an \<open>Upload\<close> with \<open>partSize: 100 * 1024 * 1024\<close>,
  \<open>queueSize: 4\<close> and a progress listener.
\<close>

definition uploadToR2 :: "'d env \<Rightarrow> 'd world \<Rightarrow> string \<Rightarrow> string \<Rightarrow> string \<Rightarrow> error option \<times> 'd world" where
  "uploadToR2 e w filePath key contentType =
     (case files w filePath of
        None \<Rightarrow> (Some ENOENT, w)
      | Some content \<Rightarrow>
          let fileSize = length content;
              call = (if fileSize < 100 * 1024 * 1024 then PutObjectCommand key contentType
                      else MultipartUpload key contentType (100 * 1024 * 1024) 4 True);
              w' = w\<lparr>trace := trace w @ [call]\<rparr>
          in if put_fails e key then (Some PutError, w')
             else (None, w'\<lparr>bucket := (bucket w)(key \<mapsto> (contentType, content))\<rparr>))"

definition uploadTo :: "variant \<Rightarrow> 'd env \<Rightarrow> 'd world \<Rightarrow> string \<Rightarrow> string \<Rightarrow> string \<Rightarrow> error option \<times> 'd world" where
  "uploadTo v = (case v of MinIO \<Rightarrow> uploadToMinio | R2 \<Rightarrow> uploadToR2)"

text \<open>
  The thumbnail files: the entries of the folder that end in \<open>.jpg\<close>, put in order by
  \<open>Array.prototype.sort\<close> without a comparison function, which compares the names as
  strings, code unit by code unit.  That is the lexicographic order of the characters,
  the order of \<open>sort\<close> on \<open>string\<close> here.
\<close>

definition thumbnailFiles_of :: "string list \<Rightarrow> string list" where
  "thumbnailFiles_of entries = sort (filter (\<lambda>f. endsWith f ''.jpg'') entries)"

text \<open>The \<open>for ... of\<close> loop over the thumbnail files; the first failed upload ends it.\<close>

fun upload_thumbnails :: "variant \<Rightarrow> 'd env \<Rightarrow> 'd world \<Rightarrow> string \<Rightarrow> string \<Rightarrow> string list \<Rightarrow> error option \<times> 'd world" where
  "upload_thumbnails v e w dir vid [] = (None, w)"
| "upload_thumbnails v e w dir vid (thumbFile # rest) =
     (case uploadTo v e w (path_join dir thumbFile) (''thumbnails/'' @ vid @ ''/'' @ thumbFile) ''image/jpeg'' of
        (Some err, w') \<Rightarrow> (Some err, w')
      | (None, w') \<Rightarrow> upload_thumbnails v e w' dir vid rest)"

text \<open>
  \<open>video.save()\<close> of a new document: the unique index on \<open>videoId\<close> rejects a second
  record with the same id; any other rejection is the outcome \<open>save_fails\<close>.
\<close>

definition save_new :: "'d env \<Rightarrow> 'd world \<Rightarrow> 'd video \<Rightarrow> error option \<times> 'd world" where
  "save_new e w video =
     (let w' = w\<lparr>trace := trace w @ [Save (videoId video)]\<rparr>
      in if save_fails e then (Some SaveError, w')
         else if list_ex (\<lambda>u. videoId u = videoId video) (db w) then (Some DuplicateKey, w')
         else (None, w'\<lparr>db := db w @ [video]\<rparr>))"

text \<open>The body of the \<open>try\<close> block after validation, up to the clean-up of the success path.\<close>

definition ingest :: "variant \<Rightarrow> 'd env \<Rightarrow> 'd world \<Rightarrow> string \<Rightarrow> string \<Rightarrow> string \<Rightarrow> string \<Rightarrow> string option \<Rightarrow> (error + 'd video) \<times> 'd world" where
  "ingest v e w tempVideoPath vid tempThumbnailDir ttl descr =
     (case getVideoMetadata e w tempVideoPath of
        (Inl err, w1) \<Rightarrow> (Inl err, w1)
      | (Inr dur, w1) \<Rightarrow>
     (case generateThumbnails e w1 tempVideoPath tempThumbnailDir 10 of
        (Some err, w2) \<Rightarrow> (Inl err, w2)
      | (None, w2) \<Rightarrow>
     (case uploadTo v e w2 tempVideoPath (''videos/'' @ vid @ ''.mp4'') ''video/mp4'' of
        (Some err, w3) \<Rightarrow> (Inl err, w3)
      | (None, w3) \<Rightarrow>
     (case dirs w3 tempThumbnailDir of
        None \<Rightarrow> (Inl ENOENT, w3)
      | Some entries \<Rightarrow>
     (case upload_thumbnails v e w3 tempThumbnailDir vid (thumbnailFiles_of entries) of
        (Some err, w4) \<Rightarrow> (Inl err, w4)
      | (None, w4) \<Rightarrow>
     (let video = \<lparr>videoId = vid, title = ttl,
                    description = (case descr of None \<Rightarrow> [] | Some d \<Rightarrow> d),
                    filename = vid @ ''.mp4'', duration = dur,
                    thumbnailCount = length (thumbnailFiles_of entries),
                    views = 0, createdAt = now e\<rparr>
      in case save_new e w4 video of
        (Some err, w5) \<Rightarrow> (Inl err, w5)
      | (None, w5) \<Rightarrow>
     (case unlinkSync w5 tempVideoPath of
        Inl err \<Rightarrow> (Inl err, w5)
      | Inr w6 \<Rightarrow> (Inr video, rmSync w6 tempThumbnailDir))))))))"

text \<open>The \<open>catch\<close> block: each temp resource is removed when its variable is set and it exists.\<close>

definition catch_cleanup :: "'d world \<Rightarrow> string option \<Rightarrow> string option \<Rightarrow> 'd world" where
  "catch_cleanup w tempVideoPath tempThumbnailDir =
     (let w1 = (if truthy tempVideoPath \<and> existsSync w (the tempVideoPath)
                then (case unlinkSync w (the tempVideoPath) of Inl _ \<Rightarrow> w | Inr w' \<Rightarrow> w')
                else w)
      in if truthy tempThumbnailDir \<and> existsSync w1 (the tempThumbnailDir)
         then rmSync w1 (the tempThumbnailDir) else w1)"

text \<open>
  The handler.  The 400 answer returns from inside \<open>try\<close> before either temp variable is
  assigned, and runs neither the clean-up of the success path nor the \<open>catch\<close> block.
\<close>

definition upload_handler :: "variant \<Rightarrow> 'd env \<Rightarrow> 'd world \<Rightarrow> multer_file option \<Rightarrow> string option \<Rightarrow> string option \<Rightarrow> 'd response \<times> 'd world" where
  "upload_handler v e w videoFile ttl descr =
     (case videoFile of
        None \<Rightarrow> (Response 400 (Error ''Video and title required''), w)
      | Some f \<Rightarrow>
          if \<not> truthy ttl then (Response 400 (Error ''Video and title required''), w)
          else
            let tempVideoPath = file_path f;
                vid = path_parse_name (file_name f);
                tempThumbnailDir = path_join ''thumbnails'' vid
            in case ingest v e w tempVideoPath vid tempThumbnailDir (the ttl) descr of
                 (Inr video, w') \<Rightarrow>
                   (Response 200 (Uploaded (videoId video) (title video) (duration video)), w')
               | (Inl err, w') \<Rightarrow>
                   (Response 500 (UploadFailed err),
                    catch_cleanup w' (Some tempVideoPath) (Some tempThumbnailDir)))"

definition post_upload :: "variant \<Rightarrow> 'd env \<Rightarrow> 'd world \<Rightarrow> form \<Rightarrow> 'd response \<times> 'd world" where
  "post_upload v e w f =
     (case multer_single v e w f of
        Inl err \<Rightarrow> (Response 500 (Error ''File too large''), w)
      | Inr (videoFile, w') \<Rightarrow> upload_handler v e w' videoFile (title_field f) (description_field f))"

section \<open>The read routes\<close>

definition thumbnail_urls :: "'d env \<Rightarrow> 'd video \<Rightarrow> string list" where
  "thumbnail_urls e video =
     map (\<lambda>i. url_of e (''thumbnails/'' @ videoId video @ ''/thumb_'' @ show_nat (i + 1) @ ''.jpg''))
       [0..<thumbnailCount video]"

text \<open>\<open>GET /api/videos\<close>: newest first.\<close>

definition get_videos :: "'d env \<Rightarrow> 'd world \<Rightarrow> 'd response \<times> 'd world" where
  "get_videos e w =
     (if find_fails e then (Response 500 (Error ''Database error''), w)
      else (Response 200 (Videos (map (\<lambda>video. (video, thumbnail_urls e video))
                                    (rev (sort_key createdAt (db w))))), w))"

definition findOne :: "string \<Rightarrow> 'd video list \<Rightarrow> 'd video option" where
  "findOne vid records = find (\<lambda>u. videoId u = vid) records"

text \<open>\<open>video.save()\<close> of a document that \<open>findOne\<close> returned writes it back in its place.\<close>

fun save_existing :: "'d video \<Rightarrow> 'd video list \<Rightarrow> 'd video list" where
  "save_existing video [] = []"
| "save_existing video (u # us) =
     (if videoId u = videoId video then video # us else u # save_existing video us)"

text \<open>
  \<open>GET /api/videos/:videoId\<close>.  The handler awaits twice, the query and the save, and
  other requests are served while it waits.  It is therefore two steps, each at the
  state of the store it meets: the query, which answers 500 or 404 or hands on the
  document it found; and \<open>video.views += 1\<close> on that document followed by the save,
  which writes the document the handler holds, whatever the store holds by then.
\<close>

definition get_video_find :: "'d env \<Rightarrow> 'd world \<Rightarrow> string \<Rightarrow> 'd response + 'd video" where
  "get_video_find e w vid =
     (if find_fails e then Inl (Response 500 (Error ''Database error''))
      else case findOne vid (db w) of
        None \<Rightarrow> Inl (Response 404 (Error ''Video not found''))
      | Some found \<Rightarrow> Inr found)"

definition get_video_save :: "'d env \<Rightarrow> 'd world \<Rightarrow> 'd video \<Rightarrow> 'd response \<times> 'd world" where
  "get_video_save e w found =
     (let video = found\<lparr>views := views found + 1\<rparr>;
          w' = w\<lparr>trace := trace w @ [Save (videoId video)]\<rparr>
      in if save_fails e then (Response 500 (Error ''Database error''), w')
         else (Response 200 (VideoBody video (thumbnail_urls e video)),
               w'\<lparr>db := save_existing video (db w)\<rparr>))"

text \<open>The handler when no other request is served between its query and its save.\<close>

definition get_video :: "'d env \<Rightarrow> 'd world \<Rightarrow> string \<Rightarrow> 'd response \<times> 'd world" where
  "get_video e w vid =
     (case get_video_find e w vid of
        Inl r \<Rightarrow> (r, w)
      | Inr found \<Rightarrow> get_video_save e w found)"

text \<open>
  \<open>GET /api/stream/:videoId\<close> of the MinIO variant.  \<open>statObject\<close> gives the size,
  \<open>getObject\<close> the whole object as a stream of chunks from offset 0.  The headers are
  written before any chunk is seen.
\<close>

definition stream_minio :: "'d env \<Rightarrow> 'd world \<Rightarrow> string \<Rightarrow> string option \<Rightarrow> 'd response" where
  "stream_minio e w vid rangeHdr =
     (if find_fails e then Response 500 (Error ''Stream failed'')
      else case findOne vid (db w) of
        None \<Rightarrow> Response 404 (Error ''Video not found'')
      | Some video \<Rightarrow>
         (case bucket w (''videos/'' @ videoId video @ ''.mp4'') of
            None \<Rightarrow> Response 500 (Error ''Stream failed'')
          | Some (_, content) \<Rightarrow>
              let fileSize = length content in
              if truthy rangeHdr then
                let start = range_start (the rangeHdr);
                    end = range_end (the rangeHdr) fileSize;
                    chunksize = js_add (js_sub end start) (Num 1)
                in Response 206
                     (Stream [(''Content-Range'',
                                 ''bytes '' @ js_show start @ ''-'' @ js_show end @ ''/'' @ show_nat fileSize),
                              (''Accept-Ranges'', ''bytes''),
                              (''Content-Length'', js_show chunksize),
                              (''Content-Type'', ''video/mp4'')]
                        (concat (on_data start end 0 (chunking e content))))
              else Response 200
                     (Stream [(''Content-Length'', show_nat fileSize),
                              (''Content-Type'', ''video/mp4'')]
                        (concat (chunking e content)))))"

text \<open>The R2 variant redirects to a signed URL and reads no range header.\<close>

definition stream_r2 :: "'d env \<Rightarrow> 'd world \<Rightarrow> string \<Rightarrow> 'd response" where
  "stream_r2 e w vid =
     (if find_fails e then Response 500 (Error ''Stream failed'')
      else case findOne vid (db w) of
        None \<Rightarrow> Response 404 (Error ''Video not found'')
      | Some video \<Rightarrow>
         (case getSignedUrl e (''videos/'' @ videoId video @ ''.mp4'') of
            Inl _ \<Rightarrow> Response 500 (Error ''Stream failed'')
          | Inr u \<Rightarrow> Response 302 (Redirect u)))"

definition get_media :: "'d env \<Rightarrow> string \<Rightarrow> 'd response" where
  "get_media e k =
     (case getSignedUrl e k of
        Inl _ \<Rightarrow> Response 500 (Error ''Failed to fetch media'')
      | Inr u \<Rightarrow> Response 302 (Redirect u))"

definition health :: "variant \<Rightarrow> 'd env \<Rightarrow> 'd response" where
  "health v e =
     (case v of
        MinIO \<Rightarrow> (case listBuckets e of
                    Inl err \<Rightarrow> Response 500 (Unhealthy err)
                  | Inr n \<Rightarrow> Response 200 (Healthy (mongo_ready e) (n > 0)))
      | R2 \<Rightarrow> Response 200 (Healthy (mongo_ready e) True))"

text \<open>
  Every route of the server, each request served from its first to its last step with
  no other request in between; \<open>/api/media\<close> exists in the R2 variant only.
\<close>

datatype request =
    PostUpload form
  | GetVideos
  | GetVideo string
  | GetStream string "string option"
  | GetMedia string
  | GetHealth

definition handle :: "variant \<Rightarrow> 'd env \<Rightarrow> 'd world \<Rightarrow> request \<Rightarrow> 'd response \<times> 'd world" where
  "handle v e w r =
     (case r of
        PostUpload f \<Rightarrow> post_upload v e w f
      | GetVideos \<Rightarrow> get_videos e w
      | GetVideo vid \<Rightarrow> get_video e w vid
      | GetStream vid rangeHdr \<Rightarrow>
          (case v of MinIO \<Rightarrow> (stream_minio e w vid rangeHdr, w) | R2 \<Rightarrow> (stream_r2 e w vid, w))
      | GetMedia k \<Rightarrow>
          (case v of MinIO \<Rightarrow> (Response 404 (Error ''Not found''), w) | R2 \<Rightarrow> (get_media e k, w))
      | GetHealth \<Rightarrow> (health v e, w))"

section \<open>Notions used in the statements\<close>

text \<open>
  \<open>ffmpeg\<close> names the frames after the pattern \<open>thumb_%i.jpg\<close>, counting from 1.
\<close>

definition thumb_name :: "nat \<Rightarrow> string" where
  "thumb_name n = ''thumb_'' @ show_nat n @ ''.jpg''"

text \<open>The keys of the uploads in a list of calls, in the order of the calls.\<close>

fun put_keys :: "event list \<Rightarrow> string list" where
  "put_keys [] = []"
| "put_keys (PutObject k _ _ # es) = k # put_keys es"
| "put_keys (PutObjectCommand k _ # es) = k # put_keys es"
| "put_keys (MultipartUpload k _ _ _ _ # es) = k # put_keys es"
| "put_keys (_ # es) = put_keys es"

text \<open>
  The four steps before the save, for a run whose thumbnail folder is new: the probe
  returns, \<open>ffmpeg\<close> ends without error, the store takes the video object, and the
  store takes every thumbnail object.
\<close>

definition pipeline_ok :: "'d env \<Rightarrow> string \<Rightarrow> bool" where
  "pipeline_ok e vid =
     (\<not> isl (ffprobe e) \<and> screenshots_ok e
      \<and> \<not> put_fails e (''videos/'' @ vid @ ''.mp4'')
      \<and> (\<forall>t \<in> set (thumbnailFiles_of (map fst (screenshots e))).
            \<not> put_fails e (''thumbnails/'' @ vid @ ''/'' @ t)))"

text \<open>The record store takes the new record: no rejection, and no record with this id yet.\<close>

definition save_accepted :: "'d env \<Rightarrow> 'd world \<Rightarrow> string \<Rightarrow> bool" where
  "save_accepted e w vid = (\<not> save_fails e \<and> \<not> list_ex (\<lambda>u. videoId u = vid) (db w))"

text \<open>The record the handler builds from the request, the probe and the thumbnail files.\<close>

definition new_record :: "'d env \<Rightarrow> string \<Rightarrow> string \<Rightarrow> string option \<Rightarrow> 'd \<Rightarrow> 'd video" where
  "new_record e vid ttl descr dur =
     \<lparr>videoId = vid, title = ttl,
      description = (case descr of None \<Rightarrow> [] | Some d \<Rightarrow> d),
      filename = vid @ ''.mp4'', duration = dur,
      thumbnailCount = length (thumbnailFiles_of (map fst (screenshots e))),
      views = 0, createdAt = now e\<rparr>"

section \<open>Example inputs\<close>

text \<open>
  One record \<open>v1\<close> whose object has ten bytes, delivered by the store as one chunk; an
  outside where every service succeeds and \<open>ffmpeg\<close> writes \<open>thumb_1.jpg\<close> to
  \<open>thumb_10.jpg\<close>, listed in that order.
\<close>

definition ex_env :: "int env" where
  "ex_env =
     \<lparr>ffprobe = Inr 30,
      screenshots = map (\<lambda>i. (''thumb_'' @ show_nat i @ ''.jpg'', [of_nat i])) [1..<11],
      screenshots_ok = True, put_fails = (\<lambda>_. False), save_fails = False,
      find_fails = False, now = 1000, random_name = ''a1b2c3'',
      chunking = (\<lambda>b. [b]), getSignedUrl = (\<lambda>k. Inr (''https://r2.example/'' @ k)),
      mongo_ready = True, listBuckets = Inr 1,
      url_of = (\<lambda>k. ''http://localhost:9000/videotube/'' @ k)\<rparr>"

definition ex_video :: "int video" where
  "ex_video =
     \<lparr>videoId = ''v1'', title = ''A'', description = [], filename = ''v1.mp4'',
      duration = 30, thumbnailCount = 0, views = 0, createdAt = 1\<rparr>"

definition ex_object :: bytes where
  "ex_object = [0, 1, 2, 3, 4, 5, 6, 7, 8, 9]"

definition ex_world :: "int world" where
  "ex_world =
     \<lparr>files = Map.empty, dirs = Map.empty,
      bucket = [''videos/v1.mp4'' \<mapsto> (''video/mp4'', ex_object)],
      db = [ex_video], trace = []\<rparr>"

text \<open>
  An upload with a title and one without; a large file on disk; an outside that lists
  nine thumbnails out of order; an outside whose database rejects the save; an outside
  whose store rejects the second thumbnail.
\<close>

definition ex_form :: form where
  "ex_form = \<lparr>video_part = Some [1, 2, 3], title_field = Some ''T'', description_field = None\<rparr>"

definition ex_form_no_title :: form where
  "ex_form_no_title = \<lparr>video_part = Some [1, 2, 3], title_field = None, description_field = None\<rparr>"

definition ex_big_world :: "int world" where
  "ex_big_world = ex_world\<lparr>files := [''uploads/videos/big'' \<mapsto> replicate (100 * 1024 * 1024) 0]\<rparr>"

definition ex_env9 :: "int env" where
  "ex_env9 = ex_env\<lparr>screenshots := map (\<lambda>i. (''thumb_'' @ show_nat i @ ''.jpg'', [of_nat i])) [3, 1, 2, 9, 8, 4, 5, 7, 6]\<rparr>"

definition ex_env_save_rejected :: "int env" where
  "ex_env_save_rejected = ex_env\<lparr>save_fails := True\<rparr>"

definition ex_env_put_fails :: "int env" where
  "ex_env_put_fails = ex_env\<lparr>put_fails := (\<lambda>k. k = ''thumbnails/a1b2c3/thumb_2.jpg'')\<rparr>"

text \<open>An outside whose store delivers an object byte by byte.\<close>

definition ex_env_bytewise :: "int env" where
  "ex_env_bytewise = ex_env\<lparr>chunking := map (\<lambda>b. [b])\<rparr>"

section \<open>Properties of the range branch\<close>

lemma ex_facts:
  "\<not> find_fails ex_env"
  "findOne ''v1'' (db ex_world) = Some ex_video"
  "bucket ex_world (''videos/'' @ videoId ex_video @ ''.mp4'') = Some (''video/mp4'', ex_object)"
  "concat (chunking ex_env ex_object) = ex_object"
  by (simp_all add: ex_env_def ex_world_def ex_video_def findOne_def)

text \<open>No chunk is written when no counter value lies in the window.\<close>

lemma on_data_never:
  "(\<And>b. \<not> (js_ge (Num (int b)) start \<and> js_lt (Num (int b)) end)) \<Longrightarrow> on_data start end b cs = []"
  by (induction cs arbitrary: b) (simp_all add: Let_def)

text \<open>When the start lies at or after the last byte still to come, only empty chunks are written.\<close>

lemma on_data_beyond_empty:
  "int b + int (length (concat cs)) \<le> s \<Longrightarrow> c \<in> set (on_data (Num s) en b cs) \<Longrightarrow> c = []"
proof (induction cs arbitrary: b)
  case Nil
  then show ?case by simp
next
  case (Cons x xs)
  have IH: "c \<in> set (on_data (Num s) en (b + length x) xs) \<Longrightarrow> c = []"
    using Cons.prems(1) by (intro Cons.IH [of "b + length x"]) simp_all
  have "x = []" if "s \<le> int b"
    using that Cons.prems(1) by (cases x) auto
  then show ?case
    using IH Cons.prems(2) by (auto simp: Let_def split: if_splits)
qed

lemma on_data_beyond:
  "int (b + length (concat cs)) \<le> s \<Longrightarrow> concat (on_data (Num s) en b cs) = []"
  using on_data_beyond_empty [of b cs s _ en] by auto

lemma malformed_writes_nothing:
  assumes "start = NaN \<or> end = NaN \<or> js_gt start end \<or> js_ge start (Num (int (length (concat cs))))"
  shows "concat (on_data start end 0 cs) = []"
proof -
  have "(\<forall>b. \<not> (js_ge (Num (int b)) start \<and> js_lt (Num (int b)) end))
        \<or> (\<exists>s. start = Num s \<and> int (length (concat cs)) \<le> s)"
    using assms by (cases start; cases "end") auto
  then show ?thesis
  proof
    assume "\<forall>b. \<not> (js_ge (Num (int b)) start \<and> js_lt (Num (int b)) end)"
    then have "on_data start end 0 cs = []"
      by (intro on_data_never) simp
    then show ?thesis by simp
  next
    assume "\<exists>s. start = Num s \<and> int (length (concat cs)) \<le> s"
    then obtain s where "start = Num s" and "int (length (concat cs)) \<le> s"
      by blast
    then show ?thesis
      using on_data_beyond [of 0 cs s "end"] by simp
  qed
qed




text \<open>
  A request for the first byte alone never gets it, however the object is cut into
  chunks: no counter value is at least 0 and below 0.
\<close>

lemma first_byte_alone_is_never_written: "on_data (Num 0) (Num 0) b cs = []"
  by (rule on_data_never) simp

text \<open>
  Claim C1: for a range \<open>bytes=start-end\<close> with \<open>0 \<le> start \<le> end < size\<close> the answer
  is 206 with \<open>Content-Range: bytes start-end/size\<close> and a body of exactly the bytes
  \<open>start..end\<close> of the object.

  The headers are as claimed, the body is not.  For the ten-byte object delivered as
  one chunk and \<open>Range: bytes=2-5\<close>, the listener sees the chunk at counter 0, which is
  below \<open>start\<close>, writes nothing, and ends the response: the body is empty, where
  the claim asks for the four bytes \<open>2, 3, 4, 5\<close>.  The body is the claimed slice only
  when a chunk happens to begin at \<open>start\<close> and to end at \<open>end\<close>.
\<close>

theorem stream_range_body_is_not_the_slice:
  "stream_minio ex_env ex_world ''v1'' (Some ''bytes=2-5'') =
     Response 206
       (Stream [(''Content-Range'', ''bytes 2-5/10''), (''Accept-Ranges'', ''bytes''),
                (''Content-Length'', ''4''), (''Content-Type'', ''video/mp4'')]
          [])
   \<and> take (5 - 2 + 1) (drop 2 ex_object) = [2, 3, 4, 5]"
  by code_simp

text \<open>
  Claim C6: a malformed range header (a start or end that is not a number,
  \<open>start > end\<close>, or \<open>start \<ge> size\<close>) is rejected with a 4xx answer, and neither 206 nor
  body bytes are sent.

  The handler has no check of the range at all.  \<open>Range: bytes=5-2\<close> on the ten-byte
  object is answered with 206.
\<close>

theorem reversed_range_answers_206:
  "stream_minio ex_env ex_world ''v1'' (Some ''bytes=5-2'') =
     Response 206
       (Stream [(''Content-Range'', ''bytes 5-2/10''), (''Accept-Ranges'', ''bytes''),
                (''Content-Length'', ''-2''), (''Content-Type'', ''video/mp4'')]
          [])"
  by code_simp

text \<open>
  Claim C6 as amended: for every request with a range header, well-formed or not, on an
  existing record whose object (of fewer than \<open>2^53\<close> bytes) the store delivers, the
  answer is 206 with \<open>Content-Range\<close> and \<open>Content-Length\<close> built from the values that
  \<open>parseInt\<close> reads, as JavaScript prints them, and with the body that the listener
  writes; there is no 4xx answer.  No body byte is sent when \<open>parseInt\<close> finds no number
  in the start or in the end (no decimal digit after optional white space and one sign,
  so that the value is \<open>NaN\<close>), or the start it reads is greater than the end it reads,
  or the start it reads is at least the size.

  A start or end that begins with digits and goes on with other characters is read as
  those digits: it is a number to the code, and body bytes can be sent for it (see
  \<open>digits_then_text_is_read_as_number\<close> below).
\<close>

theorem malformed_range_answers_206:
  assumes "\<not> find_fails e"
    and "findOne vid (db w) = Some video"
    and "bucket w (''videos/'' @ videoId video @ ''.mp4'') = Some (ct, content)"
    and "concat (chunking e content) = content"
    and "int (length content) < 2 ^ 53"
    and "hdr \<noteq> []"
  shows "stream_minio e w vid (Some hdr) =
           Response 206
             (Stream [(''Content-Range'',
                         ''bytes '' @ js_show (range_start hdr) @ ''-''
                           @ js_show (range_end hdr (length content)) @ ''/''
                           @ show_nat (length content)),
                      (''Accept-Ranges'', ''bytes''),
                      (''Content-Length'',
                         js_show (js_add (js_sub (range_end hdr (length content)) (range_start hdr)) (Num 1))),
                      (''Content-Type'', ''video/mp4'')]
                (concat (on_data (range_start hdr) (range_end hdr (length content)) 0
                           (chunking e content))))
         \<and> (range_start hdr = NaN \<or> range_end hdr (length content) = NaN
              \<or> js_gt (range_start hdr) (range_end hdr (length content))
              \<or> js_ge (range_start hdr) (Num (int (length content)))
             \<longrightarrow> concat (on_data (range_start hdr) (range_end hdr (length content)) 0
                           (chunking e content)) = [])"
proof (intro conjI impI)
  show "stream_minio e w vid (Some hdr) =
           Response 206
             (Stream [(''Content-Range'',
                         ''bytes '' @ js_show (range_start hdr) @ ''-''
                           @ js_show (range_end hdr (length content)) @ ''/''
                           @ show_nat (length content)),
                      (''Accept-Ranges'', ''bytes''),
                      (''Content-Length'',
                         js_show (js_add (js_sub (range_end hdr (length content)) (range_start hdr)) (Num 1))),
                      (''Content-Type'', ''video/mp4'')]
                (concat (on_data (range_start hdr) (range_end hdr (length content)) 0
                           (chunking e content))))"
    using assms(1,2,3,6) by (simp add: stream_minio_def truthy_def Let_def)
next
  assume "range_start hdr = NaN \<or> range_end hdr (length content) = NaN
          \<or> js_gt (range_start hdr) (range_end hdr (length content))
          \<or> js_ge (range_start hdr) (Num (int (length content)))"
  then show "concat (on_data (range_start hdr) (range_end hdr (length content)) 0
                       (chunking e content)) = []"
    using assms(4) by (intro malformed_writes_nothing) simp
qed

theorem malformed_range_answers_206_witness:
  "stream_minio ex_env ex_world ''v1'' (Some ''bytes=abc-7'') =
     Response 206
       (Stream [(''Content-Range'', ''bytes NaN-7/10''), (''Accept-Ranges'', ''bytes''),
                (''Content-Length'', ''NaN''), (''Content-Type'', ''video/mp4'')]
          [])"
proof -
  have h7: "range_start ''bytes=abc-7'' = NaN \<or> range_end ''bytes=abc-7'' (length ex_object) = NaN
         \<or> js_gt (range_start ''bytes=abc-7'') (range_end ''bytes=abc-7'' (length ex_object))
         \<or> js_ge (range_start ''bytes=abc-7'') (Num (int (length ex_object)))"
    by code_simp
  have h5: "int (length ex_object) < 2 ^ 53" by (simp add: ex_object_def)
  have h6: "''bytes=abc-7'' \<noteq> []" by simp
  note r = malformed_range_answers_206 [OF ex_facts h5 h6]
  note body = r [THEN conjunct2, rule_format, OF h7]
  show ?thesis unfolding r [THEN conjunct1] body by code_simp
qed

text \<open>
  The values read may be far from the text of the header.  A start above \<open>2^53\<close> is
  rounded to a double, and a start of 400 digits is \<open>Infinity\<close>; both are at least the
  size, and the headers show what was read.
\<close>

lemma start_beyond_2_53_is_rounded:
  "stream_minio ex_env ex_world ''v1'' (Some ''bytes=9007199254740993-'') =
     Response 206
       (Stream [(''Content-Range'', ''bytes 9007199254740992-9/10''), (''Accept-Ranges'', ''bytes''),
                (''Content-Length'', ''-9007199254740982''), (''Content-Type'', ''video/mp4'')]
          [])"
  by code_simp

text \<open>
  \<open>Range: bytes=1x-5\<close> is read as start 1 and end 5.  When the store delivers the
  ten-byte object byte by byte, the bytes at the offsets 1 to 4 are sent.
\<close>

lemma digits_then_text_is_read_as_number:
  "stream_minio ex_env_bytewise ex_world ''v1'' (Some ''bytes=1x-5'') =
     Response 206
       (Stream [(''Content-Range'', ''bytes 1-5/10''), (''Accept-Ranges'', ''bytes''),
                (''Content-Length'', ''5''), (''Content-Type'', ''video/mp4'')]
          [1, 2, 3, 4])"
  by code_simp

text \<open>
  Claim C7: for \<open>Range: bytes=start-\<close> with \<open>0 \<le> start < size\<close> the end is taken as
  \<open>size - 1\<close> and the bytes from \<open>start\<close> through the last byte are served.

  The end is \<open>size - 1\<close> in the headers, but the bytes are not served.  For the ten-byte
  object delivered as one chunk and \<open>Range: bytes=2-\<close> the body is empty, where the
  claim asks for the eight bytes \<open>2..9\<close>.
\<close>

theorem stream_open_range_body_misses_bytes:
  "stream_minio ex_env ex_world ''v1'' (Some ''bytes=2-'') =
     Response 206
       (Stream [(''Content-Range'', ''bytes 2-9/10''), (''Accept-Ranges'', ''bytes''),
                (''Content-Length'', ''8''), (''Content-Type'', ''video/mp4'')]
          [])
   \<and> drop 2 ex_object = [2, 3, 4, 5, 6, 7, 8, 9]"
  by code_simp




section \<open>Properties of the ingestion pipeline\<close>

subsection \<open>Clean-up\<close>

lemma fold_remove_None:
  "m p = None \<Longrightarrow> fold (\<lambda>n m. m(g n := None)) ns m p = None"
  by (induction ns arbitrary: m) simp_all

lemma rmSync_files_None: "files w p = None \<Longrightarrow> files (rmSync w d) p = None"
  by (simp add: rmSync_def fold_remove_None split: option.splits)

lemma rmSync_dirs_None: "dirs (rmSync w d) d = None"
  by (simp add: rmSync_def split: option.splits)

lemma rmSync_db: "db (rmSync w d) = db w"
  by (simp add: rmSync_def split: option.splits)

lemma rmSync_trace: "trace (rmSync w d) = trace w"
  by (simp add: rmSync_def split: option.splits)

lemma catch_cleanup_db: "db (catch_cleanup w p d) = db w"
  by (simp add: catch_cleanup_def unlinkSync_def rmSync_db Let_def split: option.splits)

lemma catch_cleanup_files:
  assumes "p \<noteq> []"
  shows "files (catch_cleanup w (Some p) (Some d)) p = None"
proof -
  define w1 where "w1 = (if truthy (Some p) \<and> existsSync w p
                then (case unlinkSync w p of Inl _ \<Rightarrow> w | Inr w' \<Rightarrow> w') else w)"
  have "files w1 p = None"
    by (auto simp: w1_def existsSync_def unlinkSync_def truthy_def assms split: option.splits)
  then show ?thesis
    unfolding catch_cleanup_def Let_def option.sel w1_def [symmetric]
    by (simp add: rmSync_files_None)
qed

lemma catch_cleanup_dirs:
  assumes "d \<noteq> []"
  shows "dirs (catch_cleanup w (Some p) (Some d)) d = None"
proof -
  define w1 where "w1 = (if truthy (Some p) \<and> existsSync w p
                then (case unlinkSync w p of Inl _ \<Rightarrow> w | Inr w' \<Rightarrow> w') else w)"
  have "dirs (if truthy (Some d) \<and> existsSync w1 d then rmSync w1 d else w1) d = None"
    by (auto simp: rmSync_dirs_None existsSync_def truthy_def assms rmSync_def split: option.splits)
  then show ?thesis
    unfolding catch_cleanup_def Let_def option.sel w1_def [symmetric] .
qed

lemma path_join_nonempty: "a \<noteq> [] \<Longrightarrow> path_join a b \<noteq> []"
  by (simp add: path_join_def)

lemma ex_form_facts:
  "video_part ex_form = Some [1, 2, 3]"
  "length [1, 2, 3 :: byte] \<le> fileSize_limit v"
  "truthy (title_field ex_form)"
  by (cases v; simp add: ex_form_def fileSize_limit_def truthy_def)+

subsection \<open>The steps of a run\<close>

lemma uploadTo_frame:
  "files (snd (uploadTo v e w p k ct)) = files w"
  "dirs (snd (uploadTo v e w p k ct)) = dirs w"
  "db (snd (uploadTo v e w p k ct)) = db w"
  by (cases v; simp add: uploadTo_def uploadToMinio_def uploadToR2_def Let_def split: option.splits)+

lemma uploadTo_ok_iff:
  "fst (uploadTo v e w p k ct) = None \<longleftrightarrow> files w p \<noteq> None \<and> \<not> put_fails e k"
  by (cases v; simp add: uploadTo_def uploadToMinio_def uploadToR2_def Let_def split: option.splits)

lemma upload_thumbnails_step:
  "upload_thumbnails v e w d vid (t # ts) =
     (let u = uploadTo v e w (path_join d t) (''thumbnails/'' @ vid @ ''/'' @ t) ''image/jpeg''
      in if fst u = None then upload_thumbnails v e (snd u) d vid ts else (fst u, snd u))"
  by (simp add: Let_def split: prod.splits option.splits)

lemma upload_thumbnails_frame:
  "files (snd (upload_thumbnails v e w d vid ts)) = files w"
  "dirs (snd (upload_thumbnails v e w d vid ts)) = dirs w"
  "db (snd (upload_thumbnails v e w d vid ts)) = db w"
proof (induction ts arbitrary: w)
  case Nil
  { case 1 show ?case by simp }
  { case 2 show ?case by simp }
  { case 3 show ?case by simp }
next
  case (Cons t ts)
  { case 1 show ?case using Cons(1) [of "snd (uploadTo v e w (path_join d t) (''thumbnails/'' @ vid @ ''/'' @ t) ''image/jpeg'')"]
      by (simp add: split_beta uploadTo_frame split: option.splits) }
  { case 2 show ?case using Cons(2) [of "snd (uploadTo v e w (path_join d t) (''thumbnails/'' @ vid @ ''/'' @ t) ''image/jpeg'')"]
      by (simp add: split_beta uploadTo_frame split: option.splits) }
  { case 3 show ?case using Cons(3) [of "snd (uploadTo v e w (path_join d t) (''thumbnails/'' @ vid @ ''/'' @ t) ''image/jpeg'')"]
      by (simp add: split_beta uploadTo_frame split: option.splits) }
qed

lemma upload_thumbnails_ok_iff:
  "fst (upload_thumbnails v e w d vid ts) = None \<longleftrightarrow>
     (\<forall>t \<in> set ts. files w (path_join d t) \<noteq> None \<and> \<not> put_fails e (''thumbnails/'' @ vid @ ''/'' @ t))"
proof (induction ts arbitrary: w)
  case Nil
  show ?case by simp
next
  case (Cons t ts)
  show ?case
    using Cons [of "snd (uploadTo v e w (path_join d t) (''thumbnails/'' @ vid @ ''/'' @ t) ''image/jpeg'')"]
      uploadTo_ok_iff [of v e w "path_join d t" "''thumbnails/'' @ vid @ ''/'' @ t" "''image/jpeg''"]
    by (auto simp: split_beta uploadTo_frame split: option.splits)
qed

lemma fold_write_keeps:
  "m p \<noteq> None \<Longrightarrow> fold (\<lambda>(n, b) m. m(g n \<mapsto> b)) shots m p \<noteq> None"
  by (induction shots arbitrary: m) (auto simp: split_beta)

lemma fold_write_Some:
  "t \<in> fst ` set shots \<Longrightarrow> fold (\<lambda>(n, b) m. m(g n \<mapsto> b)) shots m (g t) \<noteq> None"
proof (induction shots arbitrary: m)
  case Nil
  then show ?case by simp
next
  case (Cons x xs)
  obtain n b where x: "x = (n, b)" by (cases x)
  have eq: "fold (\<lambda>(n, b) m. m(g n \<mapsto> b)) (x # xs) m = fold (\<lambda>(n, b) m. m(g n \<mapsto> b)) xs (m(g n \<mapsto> b))"
    by (simp add: x)
  show ?case
  proof (cases "t \<in> fst ` set xs")
    case True
    show ?thesis unfolding eq by (rule Cons.IH [OF True])
  next
    case False
    then have "t = n" using Cons.prems by (auto simp: x)
    then have "(m(g n \<mapsto> b)) (g t) \<noteq> None" by simp
    then show ?thesis unfolding eq by (rule fold_write_keeps)
  qed
qed

lemma set_thumbnailFiles_of: "set (thumbnailFiles_of entries) \<subseteq> set entries"
  by (auto simp: thumbnailFiles_of_def)

lemma generateThumbnails_fresh:
  assumes "dirs w d = None"
  shows "files (snd (generateThumbnails e w p d c)) =
           fold (\<lambda>(n, b) m. m(path_join d n \<mapsto> b)) (screenshots e) (files w)"
    and "dirs (snd (generateThumbnails e w p d c)) d = Some (map fst (screenshots e))"
    and "db (snd (generateThumbnails e w p d c)) = db w"
    and "fst (generateThumbnails e w p d c) = None \<longleftrightarrow> screenshots_ok e"
  using assms by (simp_all add: generateThumbnails_def Let_def)

lemma generateThumbnails_db: "db (snd (generateThumbnails e w p d c)) = db w"
  by (simp add: generateThumbnails_def Let_def)

lemma save_new_simps:
  "files (snd (save_new e w video)) = files w"
  "db (snd (save_new e w video)) =
     (if save_fails e \<or> list_ex (\<lambda>u. videoId u = videoId video) (db w) then db w else db w @ [video])"
  "fst (save_new e w video) = None \<longleftrightarrow>
     \<not> save_fails e \<and> \<not> list_ex (\<lambda>u. videoId u = videoId video) (db w)"
  by (simp_all add: save_new_def Let_def)

text \<open>The \<open>try\<close> block as a chain of tests on the outcome of each step.\<close>

lemma ingest_unfold:
  "ingest v e w p vid d ttl descr =
    (let w1 = w\<lparr>trace := trace w @ [Ffprobe p]\<rparr>;
         g = generateThumbnails e w1 p d 10;
         u = uploadTo v e (snd g) p (''videos/'' @ vid @ ''.mp4'') ''video/mp4'';
         ts = thumbnailFiles_of (the (dirs (snd u) d));
         t = upload_thumbnails v e (snd u) d vid ts;
         video = \<lparr>videoId = vid, title = ttl,
                    description = (case descr of None \<Rightarrow> [] | Some d \<Rightarrow> d),
                    filename = vid @ ''.mp4'', duration = projr (ffprobe e),
                    thumbnailCount = length ts, views = 0, createdAt = now e\<rparr>;
         s = save_new e (snd t) video
     in if isl (ffprobe e) then (Inl (projl (ffprobe e)), w1)
        else if fst g \<noteq> None then (Inl (the (fst g)), snd g)
        else if fst u \<noteq> None then (Inl (the (fst u)), snd u)
        else if dirs (snd u) d = None then (Inl ENOENT, snd u)
        else if fst t \<noteq> None then (Inl (the (fst t)), snd t)
        else if fst s \<noteq> None then (Inl (the (fst s)), snd s)
        else if files (snd s) p = None then (Inl ENOENT, snd s)
        else (Inr video, rmSync ((snd s)\<lparr>files := (files (snd s))(p := None)\<rparr>) d))"
  by (simp add: ingest_def getVideoMetadata_def unlinkSync_def Let_def
      split: prod.splits sum.splits option.splits)

lemma ingest_result:
  assumes "files w p \<noteq> None" and "dirs w d = None"
  shows "db (snd (ingest v e w p vid d ttl descr)) =
           (if pipeline_ok e vid \<and> save_accepted e w vid
            then db w @ [new_record e vid ttl descr (projr (ffprobe e))] else db w)"
    and "isl (fst (ingest v e w p vid d ttl descr)) \<longleftrightarrow> \<not> (pipeline_ok e vid \<and> save_accepted e w vid)"
proof -
  define w1 where "w1 = w\<lparr>trace := trace w @ [Ffprobe p]\<rparr>"
  define w2 where "w2 = snd (generateThumbnails e w1 p d 10)"
  define w3 where "w3 = snd (uploadTo v e w2 p (''videos/'' @ vid @ ''.mp4'') ''video/mp4'')"
  define ts where "ts = thumbnailFiles_of (map fst (screenshots e))"
  define w4 where "w4 = snd (upload_thumbnails v e w3 d vid ts)"
  have d1: "dirs w1 d = None" using assms(2) by (simp add: w1_def)
  note g = generateThumbnails_fresh [OF d1, of e p 10, folded w2_def]
  have f2: "files w2 = fold (\<lambda>(n, b) m. m(path_join d n \<mapsto> b)) (screenshots e) (files w)"
    using g(1) by (simp add: w1_def)
  have p2: "files w2 p \<noteq> None"
    unfolding f2 using assms(1) by (rule fold_write_keeps)
  have t2: "files w2 (path_join d t) \<noteq> None" if "t \<in> set ts" for t
  proof -
    have "t \<in> fst ` set (screenshots e)"
      using that set_thumbnailFiles_of [of "map fst (screenshots e)"] by (auto simp: ts_def)
    then show ?thesis unfolding f2 by (rule fold_write_Some)
  qed
  have db4: "db w4 = db w" "files w4 = files w2" "dirs w3 d = Some (map fst (screenshots e))"
    using g by (simp_all add: w4_def w3_def w1_def uploadTo_frame upload_thumbnails_frame)
  have up: "fst (uploadTo v e w2 p (''videos/'' @ vid @ ''.mp4'') ''video/mp4'') = None
              \<longleftrightarrow> \<not> put_fails e (''videos/'' @ vid @ ''.mp4'')"
    using p2 by (simp add: uploadTo_ok_iff)
  have th: "fst (upload_thumbnails v e w3 d vid ts) = None
              \<longleftrightarrow> (\<forall>t \<in> set ts. \<not> put_fails e (''thumbnails/'' @ vid @ ''/'' @ t))"
    using t2 by (auto simp: upload_thumbnails_ok_iff w3_def uploadTo_frame)
  have db3: "db w3 = db w" "db w2 = db w" "db w1 = db w"
    using g by (simp_all add: w3_def w1_def uploadTo_frame)
  have p4: "files w4 p \<noteq> None" using p2 db4 by simp
  note unf = ingest_unfold [of v e w p vid d ttl descr, unfolded Let_def,
      folded w1_def, folded w2_def, folded w3_def, unfolded db4(3) option.sel, folded ts_def, folded w4_def]
  show "db (snd (ingest v e w p vid d ttl descr)) =
           (if pipeline_ok e vid \<and> save_accepted e w vid
            then db w @ [new_record e vid ttl descr (projr (ffprobe e))] else db w)"
    unfolding unf
    using g(4) up th db4(1) db3 p4
    by (auto simp: save_new_simps rmSync_db pipeline_ok_def save_accepted_def new_record_def
          ts_def [symmetric])
  show "isl (fst (ingest v e w p vid d ttl descr)) \<longleftrightarrow> \<not> (pipeline_ok e vid \<and> save_accepted e w vid)"
    unfolding unf
    using g(4) up th db4(1) db3 p4
    by (auto simp: save_new_simps rmSync_db pipeline_ok_def save_accepted_def new_record_def
          ts_def [symmetric])
qed

lemma ingest_db_shape:
  "db (snd (ingest v e w p vid d ttl descr)) = db w
   \<or> (\<exists>x. db (snd (ingest v e w p vid d ttl descr)) = db w @ [x])"
  unfolding ingest_unfold Let_def
  by (simp add: uploadTo_frame upload_thumbnails_frame generateThumbnails_db save_new_simps rmSync_db)

lemma post_upload_db_shape:
  "db (snd (post_upload v e w f)) = db w \<or> (\<exists>x. db (snd (post_upload v e w f)) = db w @ [x])"
proof (cases "multer_single v e w f")
  case (Inl err)
  then show ?thesis by (simp add: post_upload_def)
next
  case (Inr r)
  obtain videoFile w0 where r: "r = (videoFile, w0)" by (cases r)
  have w0: "db w0 = db w"
    using Inr r by (auto simp: multer_single_def Let_def split: option.splits if_splits)
  show ?thesis
  proof (cases "videoFile = None \<or> \<not> truthy (title_field f)")
    case True
    then show ?thesis
      using Inr r w0 by (auto simp: post_upload_def upload_handler_def split: option.splits)
  next
    case False
    then obtain mf where mf: "videoFile = Some mf" by auto
    define i where "i = ingest v e w0 (file_path mf) (path_parse_name (file_name mf))
       (path_join ''thumbnails'' (path_parse_name (file_name mf))) (the (title_field f)) (description_field f)"
    have sh: "db (snd i) = db w \<or> (\<exists>x. db (snd i) = db w @ [x])"
      using ingest_db_shape [of v e w0] w0 by (simp add: i_def)
    have "db (snd (post_upload v e w f)) = db (snd i)"
      using Inr r mf False
      by (simp add: post_upload_def upload_handler_def Let_def i_def [symmetric] split_beta catch_cleanup_db
          split: sum.splits)
    then show ?thesis using sh by simp
  qed
qed

lemma post_upload_ingest:
  assumes "video_part f = Some content"
    and "length content \<le> fileSize_limit v"
    and "truthy (title_field f)"
    and "p = ''uploads/videos/'' @ random_name e"
    and "vid = path_parse_name (random_name e)"
    and "d = path_join ''thumbnails'' vid"
    and "w0 = w\<lparr>files := (files w)(p \<mapsto> content)\<rparr>"
  shows "post_upload v e w f =
           (case ingest v e w0 p vid d (the (title_field f)) (description_field f) of
              (Inr video, w') \<Rightarrow>
                (Response 200 (Uploaded (videoId video) (title video) (duration video)), w')
            | (Inl err, w') \<Rightarrow>
                (Response 500 (UploadFailed err), catch_cleanup w' (Some p) (Some d)))"
  unfolding assms(7) assms(6) assms(5) assms(4)
  using assms(1-3)
  by (simp add: post_upload_def multer_single_def upload_handler_def Let_def
      split: prod.splits sum.splits)

subsection \<open>Validation\<close>

text \<open>
  Claim C2: a \<open>POST /api/upload\<close> without the video file or without a title is
  answered with 400 \<open>Video and title required\<close> at once, with no probe, no thumbnail
  generation, no upload, no record, and no temp file left on disk.

  The answer and the absence of processing are as claimed; the temp file is not.
  For an upload with a video part and no title, multer has stored the part before the
  handler runs, the handler returns 400 before \<open>tempVideoPath\<close> is assigned, and the
  file \<open>uploads/videos/a1b2c3\<close> is still on disk afterwards.  Both other exits of the
  handler remove it.
\<close>

theorem no_title_keeps_temp_file:
  "fst (post_upload MinIO ex_env ex_world ex_form_no_title) = Response 400 (Error ''Video and title required'')
   \<and> files (snd (post_upload MinIO ex_env ex_world ex_form_no_title)) ''uploads/videos/a1b2c3'' = Some [1, 2, 3]
   \<and> trace (snd (post_upload MinIO ex_env ex_world ex_form_no_title)) = trace ex_world
   \<and> db (snd (post_upload MinIO ex_env ex_world ex_form_no_title)) = db ex_world"
  by (simp add: post_upload_def multer_single_def upload_handler_def ex_form_no_title_def
        ex_env_def ex_world_def fileSize_limit_def truthy_def Let_def)

subsection \<open>The commit point\<close>

text \<open>
  Claim C3: a record is persisted if and only if metadata extraction, thumbnail
  generation, the upload of the video object and the upload of every thumbnail object
  all succeeded; a failure before the save leaves no record, and no partial record is
  ever persisted.

  The save is a step of its own and can be rejected.  With a probe that returns,
  thumbnails generated and every upload taken by the store, a rejected save is answered
  with 500 and leaves the records as they were: the four steps succeeded and no
  record is persisted.
\<close>

theorem rejected_save_leaves_no_record:
  "pipeline_ok ex_env_save_rejected ''a1b2c3''
   \<and> fst (post_upload MinIO ex_env_save_rejected ex_world ex_form) = Response 500 (UploadFailed SaveError)
   \<and> db (snd (post_upload MinIO ex_env_save_rejected ex_world ex_form)) = db ex_world"
proof -
  have "pipeline_ok ex_env_save_rejected ''a1b2c3''"
    by code_simp
  moreover have "fst (post_upload MinIO ex_env_save_rejected ex_world ex_form) =
      Response 500 (UploadFailed SaveError)"
    unfolding post_upload_ingest [OF ex_form_facts refl refl refl refl] by code_simp
  moreover have "db (snd (post_upload MinIO ex_env_save_rejected ex_world ex_form)) = db ex_world"
    unfolding post_upload_ingest [OF ex_form_facts refl refl refl refl] by code_simp
  ultimately show ?thesis by simp
qed

text \<open>
  Claim C3 as amended: a record is persisted if and only if metadata extraction,
  thumbnail generation, the upload of the video object, the upload of every thumbnail
  object and the save of the record itself all succeeded; a failure of any of them
  leaves no record, and no partial record is ever persisted.

  For a run that passed validation and whose thumbnail folder is new, the records after
  the run are the records before it, plus the one new record exactly when the four
  steps succeeded and the record store took the save.  Where the store takes the save,
  the record is there if and only if the four steps succeeded.  The new record always
  counts all thumbnail files.
\<close>

theorem record_persisted_iff_pipeline_and_save_succeeded:
  assumes "video_part f = Some content"
    and "length content \<le> fileSize_limit v"
    and "truthy (title_field f)"
    and "dirs w (path_join ''thumbnails'' (path_parse_name (random_name e))) = None"
  shows "db (snd (post_upload v e w f)) =
           (if pipeline_ok e (path_parse_name (random_name e))
               \<and> save_accepted e w (path_parse_name (random_name e))
            then db w @ [new_record e (path_parse_name (random_name e)) (the (title_field f))
                           (description_field f) (projr (ffprobe e))]
            else db w)
       \<and> (save_accepted e w (path_parse_name (random_name e)) \<longrightarrow>
            (db (snd (post_upload v e w f)) =
               db w @ [new_record e (path_parse_name (random_name e)) (the (title_field f))
                         (description_field f) (projr (ffprobe e))]
             \<longleftrightarrow> pipeline_ok e (path_parse_name (random_name e))))"
proof -
  define p where "p = ''uploads/videos/'' @ random_name e"
  define vid where "vid = path_parse_name (random_name e)"
  define d where "d = path_join ''thumbnails'' vid"
  define w0 where "w0 = w\<lparr>files := (files w)(p \<mapsto> content)\<rparr>"
  define i where "i = ingest v e w0 p vid d (the (title_field f)) (description_field f)"
  have a: "files w0 p \<noteq> None" and b: "dirs w0 d = None" and c: "db w0 = db w"
    using assms(4) by (simp_all add: w0_def vid_def d_def)
  have "db (snd (post_upload v e w f)) = db (snd i)"
    unfolding post_upload_ingest [OF assms(1,2,3) p_def vid_def d_def w0_def] i_def [symmetric]
    by (simp add: split_beta catch_cleanup_db split: sum.splits)
  moreover have "db (snd i) =
           (if pipeline_ok e vid \<and> save_accepted e w vid
            then db w @ [new_record e vid (the (title_field f)) (description_field f) (projr (ffprobe e))]
            else db w)"
    using ingest_result(1) [OF a b, of v e vid "the (title_field f)" "description_field f"] c
    by (simp add: i_def save_accepted_def)
  ultimately show ?thesis
    by (simp add: vid_def)
qed

theorem record_persisted_iff_pipeline_and_save_succeeded_witness:
  "pipeline_ok ex_env ''a1b2c3'' \<and> save_accepted ex_env ex_world ''a1b2c3''
   \<and> db (snd (post_upload MinIO ex_env ex_world ex_form)) =
       [ex_video,
        \<lparr>videoId = ''a1b2c3'', title = ''T'', description = [], filename = ''a1b2c3.mp4'',
         duration = 30, thumbnailCount = 10, views = 0, createdAt = 1000\<rparr>]"
proof -
  have h4: "dirs ex_world (path_join ''thumbnails'' (path_parse_name (random_name ex_env))) = None"
    by (simp add: ex_world_def)
  have v: "path_parse_name (random_name ex_env) = ''a1b2c3''" by code_simp
  have ok: "pipeline_ok ex_env ''a1b2c3''" by code_simp
  have acc: "save_accepted ex_env ex_world ''a1b2c3''" by code_simp
  have rec: "new_record ex_env ''a1b2c3'' (the (title_field ex_form)) (description_field ex_form)
               (projr (ffprobe ex_env)) =
        \<lparr>videoId = ''a1b2c3'', title = ''T'', description = [], filename = ''a1b2c3.mp4'',
         duration = 30, thumbnailCount = 10, views = 0, createdAt = 1000\<rparr>"
    by code_simp
  have d: "db ex_world = [ex_video]" by (simp add: ex_world_def)
  show ?thesis
    using record_persisted_iff_pipeline_and_save_succeeded [OF ex_form_facts h4, THEN conjunct1] ok acc
    unfolding v rec d by simp
qed

subsection \<open>Temp resources after a failure\<close>

text \<open>
  Claim C4: when a run fails after validation, at the probe, the thumbnail generation,
  an upload or the save, the temp video file and the temp thumbnail directory of the run
  are removed before the 500 answer is sent, whichever step failed.

  The state returned with the 500 answer is the state at the moment of the answer.
\<close>

theorem temp_resources_released_on_failure:
  assumes "video_part f = Some content"
    and "length content \<le> fileSize_limit v"
    and "truthy (title_field f)"
    and "post_upload v e w f = (Response 500 b, w')"
  shows "files w' (''uploads/videos/'' @ random_name e) = None
       \<and> dirs w' (path_join ''thumbnails'' (path_parse_name (random_name e))) = None"
  using assms
  by (auto simp: post_upload_def multer_single_def upload_handler_def Let_def
        catch_cleanup_files catch_cleanup_dirs path_join_nonempty
      split: prod.splits sum.splits)

theorem temp_resources_released_on_failure_witness:
  "fst (post_upload MinIO ex_env_put_fails ex_world ex_form) = Response 500 (UploadFailed PutError)
   \<and> files (snd (post_upload MinIO ex_env_put_fails ex_world ex_form)) ''uploads/videos/a1b2c3'' = None
   \<and> dirs (snd (post_upload MinIO ex_env_put_fails ex_world ex_form)) ''thumbnails/a1b2c3'' = None"
proof -
  have f: "fst (post_upload MinIO ex_env_put_fails ex_world ex_form) = Response 500 (UploadFailed PutError)"
    unfolding post_upload_ingest [OF ex_form_facts refl refl refl refl]
    by code_simp
  then have h4: "post_upload MinIO ex_env_put_fails ex_world ex_form =
      (Response 500 (UploadFailed PutError), snd (post_upload MinIO ex_env_put_fails ex_world ex_form))"
    by (simp add: prod_eq_iff)
  note r = temp_resources_released_on_failure [OF ex_form_facts h4]
  have v: "''uploads/videos/'' @ random_name ex_env_put_fails = ''uploads/videos/a1b2c3''"
    "path_join ''thumbnails'' (path_parse_name (random_name ex_env_put_fails)) = ''thumbnails/a1b2c3''"
    by code_simp+
  show ?thesis using f r unfolding v by simp
qed

subsection \<open>The order of the thumbnail uploads\<close>

lemma put_keys_append: "put_keys (xs @ ys) = put_keys xs @ put_keys ys"
  by (induction xs rule: put_keys.induct) simp_all

lemma uploadTo_put_keys:
  "files w p \<noteq> None \<Longrightarrow>
     put_keys (trace (snd (uploadTo v e w p k ct))) = put_keys (trace w) @ [k]"
  by (cases v; auto simp: uploadTo_def uploadToMinio_def uploadToR2_def Let_def put_keys_append)

lemma upload_thumbnails_put_keys:
  "fst (upload_thumbnails v e w d vid ts) = None \<Longrightarrow>
     put_keys (trace (snd (upload_thumbnails v e w d vid ts))) =
       put_keys (trace w) @ map (\<lambda>t. ''thumbnails/'' @ vid @ ''/'' @ t) ts"
proof (induction ts arbitrary: w)
  case Nil
  show ?case by simp
next
  case (Cons t ts)
  define u where "u = uploadTo v e w (path_join d t) (''thumbnails/'' @ vid @ ''/'' @ t) ''image/jpeg''"
  note step = upload_thumbnails_step [of v e w d vid t ts, unfolded Let_def, folded u_def]
  have ok: "fst u = None" and rest: "fst (upload_thumbnails v e (snd u) d vid ts) = None"
    using Cons.prems unfolding step by (auto split: if_splits)
  have "files w (path_join d t) \<noteq> None"
    using ok by (simp add: u_def uploadTo_ok_iff)
  then have "put_keys (trace (snd u)) = put_keys (trace w) @ [''thumbnails/'' @ vid @ ''/'' @ t]"
    unfolding u_def by (rule uploadTo_put_keys)
  then show ?case
    unfolding step using Cons.IH [OF rest] ok by simp
qed

lemma ingest_put_keys:
  assumes "dirs w d = None" and "\<not> isl (fst (ingest v e w p vid d ttl descr))"
  shows "put_keys (trace (snd (ingest v e w p vid d ttl descr))) =
           put_keys (trace w) @ (''videos/'' @ vid @ ''.mp4'')
             # map (\<lambda>t. ''thumbnails/'' @ vid @ ''/'' @ t) (thumbnailFiles_of (map fst (screenshots e)))"
proof -
  define w1 where "w1 = w\<lparr>trace := trace w @ [Ffprobe p]\<rparr>"
  define w2 where "w2 = snd (generateThumbnails e w1 p d 10)"
  define u where "u = uploadTo v e w2 p (''videos/'' @ vid @ ''.mp4'') ''video/mp4''"
  define ts where "ts = thumbnailFiles_of (map fst (screenshots e))"
  define t where "t = upload_thumbnails v e (snd u) d vid ts"
  define video where "video = \<lparr>videoId = vid, title = ttl,
                    description = (case descr of None \<Rightarrow> [] | Some d \<Rightarrow> d),
                    filename = vid @ ''.mp4'', duration = projr (ffprobe e),
                    thumbnailCount = length ts, views = 0, createdAt = now e\<rparr>"
  define s where "s = save_new e (snd t) video"
  have d1: "dirs w1 d = None" using assms(1) by (simp add: w1_def)
  note g = generateThumbnails_fresh [OF d1, of e p 10, folded w2_def]
  have d3: "dirs (snd u) d = Some (map fst (screenshots e))"
    using g(2) by (simp add: u_def uploadTo_frame)
  note unf = ingest_unfold [of v e w p vid d ttl descr, unfolded Let_def,
      folded w1_def, folded w2_def, folded u_def, unfolded d3 option.sel, folded ts_def, folded t_def,
      folded video_def, folded s_def]
  have ok: "fst u = None" "fst t = None" "fst s = None"
    and res: "snd (ingest v e w p vid d ttl descr) = rmSync ((snd s)\<lparr>files := (files (snd s))(p := None)\<rparr>) d"
    using assms(2) unfolding unf by (auto split: if_splits)
  have k2: "put_keys (trace w2) = put_keys (trace w)"
    by (simp add: w2_def w1_def generateThumbnails_def Let_def put_keys_append)
  have "files w2 p \<noteq> None" using ok(1) by (simp add: u_def uploadTo_ok_iff)
  then have k3: "put_keys (trace (snd u)) = put_keys (trace w2) @ [''videos/'' @ vid @ ''.mp4'']"
    unfolding u_def by (rule uploadTo_put_keys)
  have k4: "put_keys (trace (snd t)) = put_keys (trace (snd u)) @ map (\<lambda>t. ''thumbnails/'' @ vid @ ''/'' @ t) ts"
    using ok(2) unfolding t_def by (rule upload_thumbnails_put_keys)
  have k5: "put_keys (trace (snd s)) = put_keys (trace (snd t))"
    by (simp add: s_def save_new_def Let_def put_keys_append)
  show ?thesis
    unfolding res ts_def [symmetric] using k2 k3 k4 k5 by (simp add: rmSync_trace)
qed

lemma sorted_thumbnailFiles_of: "sorted (thumbnailFiles_of entries)"
  by (simp add: thumbnailFiles_of_def)

lemma thumb_names_9:
  "sorted (map thumb_name [1..<10])"
  "\<forall>x \<in> set (map thumb_name [1..<10]). endsWith x ''.jpg''"
  by code_simp+

lemma thumb_names_take:
  assumes "n \<le> 9"
  shows "map thumb_name [1..<Suc n] = take n (map thumb_name [1..<10])"
  using assms by (simp add: take_map take_upt)

lemma thumbnailFiles_of_numeric:
  assumes "n \<le> 9" and "mset entries = mset (map thumb_name [1..<Suc n])"
  shows "thumbnailFiles_of entries = map thumb_name [1..<Suc n]"
proof -
  let ?names = "map thumb_name [1..<Suc n]"
  have srt: "sorted ?names"
    unfolding thumb_names_take [OF assms(1)] using thumb_names_9(1) by (rule sorted_wrt_take)
  have jpg: "\<forall>x \<in> set ?names. endsWith x ''.jpg''"
    unfolding thumb_names_take [OF assms(1)] using thumb_names_9(2) set_take_subset by fast
  have "mset (filter (\<lambda>f. endsWith f ''.jpg'') entries) = mset (filter (\<lambda>f. endsWith f ''.jpg'') ?names)"
    using assms(2) by (simp only: mset_filter)
  also have "filter (\<lambda>f. endsWith f ''.jpg'') ?names = ?names"
    using jpg by (simp only: filter_id_conv) 
  finally have "mset ?names = mset (filter (\<lambda>f. endsWith f ''.jpg'') entries)" by simp
  from properties_for_sort [OF this srt] show ?thesis
    by (simp add: thumbnailFiles_of_def)
qed

text \<open>
  Claim C5: in a successful run that produced \<open>thumb_1.jpg\<close> to \<open>thumb_N.jpg\<close>, the
  thumbnails are uploaded in ascending numeric order of their index.

  The handler always asks for ten thumbnails, and \<open>sort()\<close> compares the names as
  strings: \<open>thumb_10.jpg\<close> comes before \<open>thumb_2.jpg\<close>, because \<open>1\<close> is below \<open>2\<close>.
\<close>

theorem ten_thumbnails_upload_order:
  "put_keys (trace (snd (post_upload MinIO ex_env ex_world ex_form))) =
     [''videos/a1b2c3.mp4'',
      ''thumbnails/a1b2c3/thumb_1.jpg'', ''thumbnails/a1b2c3/thumb_10.jpg'',
      ''thumbnails/a1b2c3/thumb_2.jpg'', ''thumbnails/a1b2c3/thumb_3.jpg'',
      ''thumbnails/a1b2c3/thumb_4.jpg'', ''thumbnails/a1b2c3/thumb_5.jpg'',
      ''thumbnails/a1b2c3/thumb_6.jpg'', ''thumbnails/a1b2c3/thumb_7.jpg'',
      ''thumbnails/a1b2c3/thumb_8.jpg'', ''thumbnails/a1b2c3/thumb_9.jpg'']"
  unfolding post_upload_ingest [OF ex_form_facts refl refl refl refl]
  by code_simp

text \<open>
  Claim C5 as amended: in a successful run the video object is uploaded first and then
  the thumbnails in ascending order of their file names as strings; this is the
  ascending numeric order of the index when the run produced at most nine thumbnails.
\<close>

theorem thumbnails_uploaded_in_name_order:
  assumes "video_part f = Some content"
    and "length content \<le> fileSize_limit v"
    and "truthy (title_field f)"
    and "dirs w (path_join ''thumbnails'' (path_parse_name (random_name e))) = None"
    and "fst (post_upload v e w f) = Response 200 b"
  shows "put_keys (trace (snd (post_upload v e w f))) =
           put_keys (trace w) @ (''videos/'' @ path_parse_name (random_name e) @ ''.mp4'')
             # map (\<lambda>t. ''thumbnails/'' @ path_parse_name (random_name e) @ ''/'' @ t)
                 (thumbnailFiles_of (map fst (screenshots e)))
       \<and> sorted (thumbnailFiles_of (map fst (screenshots e)))
       \<and> (\<forall>n \<le> 9. mset (map fst (screenshots e)) = mset (map thumb_name [1..<Suc n]) \<longrightarrow>
             thumbnailFiles_of (map fst (screenshots e)) = map thumb_name [1..<Suc n])"
proof -
  define p where "p = ''uploads/videos/'' @ random_name e"
  define vid where "vid = path_parse_name (random_name e)"
  define d where "d = path_join ''thumbnails'' vid"
  define w0 where "w0 = w\<lparr>files := (files w)(p \<mapsto> content)\<rparr>"
  define i where "i = ingest v e w0 p vid d (the (title_field f)) (description_field f)"
  note pu = post_upload_ingest [OF assms(1,2,3) p_def vid_def d_def w0_def, folded i_def]
  have ok: "\<not> isl (fst i)" and w': "snd (post_upload v e w f) = snd i"
    using assms(5) unfolding pu by (auto simp: split_beta split: sum.splits)
  have "dirs w0 d = None" "trace w0 = trace w"
    using assms(4) by (simp_all add: w0_def d_def vid_def)
  with ingest_put_keys [of w0 d v e p vid "the (title_field f)" "description_field f"] ok
  have "put_keys (trace (snd i)) =
           put_keys (trace w) @ (''videos/'' @ vid @ ''.mp4'')
             # map (\<lambda>t. ''thumbnails/'' @ vid @ ''/'' @ t) (thumbnailFiles_of (map fst (screenshots e)))"
    by (simp add: i_def)
  then show ?thesis
    unfolding w' vid_def
    using sorted_thumbnailFiles_of thumbnailFiles_of_numeric by blast
qed

theorem thumbnails_uploaded_in_name_order_witness:
  "put_keys (trace (snd (post_upload MinIO ex_env9 ex_world ex_form))) =
     ''videos/a1b2c3.mp4'' # map (\<lambda>t. ''thumbnails/a1b2c3/'' @ t) (map thumb_name [1..<10])"
proof -
  have h4: "dirs ex_world (path_join ''thumbnails'' (path_parse_name (random_name ex_env9))) = None"
    by (simp add: ex_world_def)
  have h5: "fst (post_upload MinIO ex_env9 ex_world ex_form) = Response 200 (Uploaded ''a1b2c3'' ''T'' 30)"
    unfolding post_upload_ingest [OF ex_form_facts refl refl refl refl]
    by code_simp
  note r = thumbnails_uploaded_in_name_order [OF ex_form_facts h4 h5]
  have m: "mset (map fst (screenshots ex_env9)) = mset (map thumb_name [1..<Suc 9])"
    by code_simp
  have n: "thumbnailFiles_of (map fst (screenshots ex_env9)) = map thumb_name [1..<Suc 9]"
    using r [THEN conjunct2, THEN conjunct2] m by blast
  have v: "path_parse_name (random_name ex_env9) = ''a1b2c3''" by code_simp
  have t: "put_keys (trace ex_world) = []" by (simp add: ex_world_def)
  show ?thesis
    using r [THEN conjunct1] unfolding n v t by simp
qed

subsection \<open>The upload strategy\<close>

text \<open>
  Claim C9: every file put to the object store goes in one request when it is smaller
  than 100 MB, and otherwise in a multipart upload with parts of 100 MB, at most four of
  them in flight, with progress reported.

  That is \<open>uploadToR2\<close>.  \<open>uploadToMinio\<close> has no threshold: a file of exactly 100 MB
  is handed to one \<open>putObject\<close> call with its size.
\<close>

theorem minio_large_file_single_put:
  "trace (snd (uploadTo MinIO ex_env ex_big_world ''uploads/videos/big'' ''videos/big.mp4'' ''video/mp4''))
     = [PutObject ''videos/big.mp4'' ''video/mp4'' (100 * 1024 * 1024)]"
proof -
  have "\<not> put_fails ex_env ''videos/big.mp4''" by (simp add: ex_env_def)
  then show ?thesis
    by (simp add: uploadTo_def uploadToMinio_def ex_big_world_def ex_world_def Let_def)
qed

text \<open>
  Claim C9 as amended: in the R2 variant a file below 100 MB is sent in one
  \<open>PutObjectCommand\<close> and a file of 100 MB or more in an \<open>Upload\<close> with part size
  100 MB, queue size 4 and a progress listener; in the MinIO variant every file is
  handed to one \<open>putObject\<close> call with its size.
\<close>

theorem upload_strategy_by_variant:
  assumes "files w p = Some content"
  shows "trace (snd (uploadTo R2 e w p k ct)) =
           trace w @ [if length content < 100 * 1024 * 1024 then PutObjectCommand k ct
                      else MultipartUpload k ct (100 * 1024 * 1024) 4 True]
       \<and> trace (snd (uploadTo MinIO e w p k ct)) = trace w @ [PutObject k ct (length content)]"
  using assms by (simp add: uploadTo_def uploadToR2_def uploadToMinio_def Let_def)

theorem upload_strategy_by_variant_witness:
  "trace (snd (uploadTo R2 ex_env ex_big_world ''uploads/videos/big'' ''videos/big.mp4'' ''video/mp4'')) =
     [MultipartUpload ''videos/big.mp4'' ''video/mp4'' (100 * 1024 * 1024) 4 True]
   \<and> trace (snd (uploadTo R2 ex_env (ex_world\<lparr>files := [''uploads/videos/small'' \<mapsto> [1, 2, 3]]\<rparr>)
        ''uploads/videos/small'' ''videos/small.mp4'' ''video/mp4'')) =
     [PutObjectCommand ''videos/small.mp4'' ''video/mp4'']"
proof -
  have h: "files ex_big_world ''uploads/videos/big'' = Some (replicate (100 * 1024 * 1024) 0)"
    by (simp add: ex_big_world_def)
  have h': "files (ex_world\<lparr>files := [''uploads/videos/small'' \<mapsto> [1, 2, 3]]\<rparr>) ''uploads/videos/small'' = Some [1, 2, 3]"
    by simp
  have t: "trace ex_big_world = []" "trace (ex_world\<lparr>files := [''uploads/videos/small'' \<mapsto> [1, 2, 3]]\<rparr>) = []"
    by (simp_all add: ex_big_world_def ex_world_def)
  show ?thesis
    using upload_strategy_by_variant [OF h, of ex_env "''videos/big.mp4''" "''video/mp4''", THEN conjunct1]
      upload_strategy_by_variant [OF h', of ex_env "''videos/small.mp4''" "''video/mp4''", THEN conjunct1]
    unfolding t by simp
qed

section \<open>Properties of the view count\<close>

lemma findOne_append:
  "findOne i xs = Some u \<Longrightarrow> findOne i (xs @ ys) = Some u"
  by (induction xs) (auto simp: findOne_def)

lemma findOne_videoId: "findOne i xs = Some u \<Longrightarrow> videoId u = i"
  by (induction xs) (auto simp: findOne_def split: if_splits)

lemma findOne_save_existing:
  "findOne i (save_existing video xs) =
     (if i = videoId video \<and> findOne i xs \<noteq> None then Some video else findOne i xs)"
  by (induction xs) (auto simp: findOne_def)

lemma get_video_found:
  assumes "\<not> find_fails e" and "\<not> save_fails e" and "findOne vid (db w) = Some video"
  shows "fst (get_video e w vid) =
           Response 200 (VideoBody (video\<lparr>views := views video + 1\<rparr>)
                           (thumbnail_urls e (video\<lparr>views := views video + 1\<rparr>)))"
    and "findOne vid (db (snd (get_video e w vid))) = Some (video\<lparr>views := views video + 1\<rparr>)"
  using assms findOne_videoId [OF assms(3)]
  by (simp_all add: get_video_def get_video_find_def get_video_save_def Let_def findOne_save_existing)

lemma get_video_failed:
  assumes "find_fails e \<or> save_fails e" and "findOne vid (db w) = Some video"
  shows "fst (get_video e w vid) = Response 500 (Error ''Database error'')"
    and "db (snd (get_video e w vid)) = db w"
  using assms by (auto simp: get_video_def get_video_find_def get_video_save_def Let_def)

lemma get_video_views_mono:
  assumes "findOne i (db w) = Some u"
  shows "\<exists>u'. findOne i (db (snd (get_video e w vid))) = Some u' \<and> views u \<le> views u'"
proof (cases "findOne vid (db w)")
  case None
  then show ?thesis using assms by (simp add: get_video_def get_video_find_def)
next
  case (Some found)
  have id: "videoId found = vid" using Some by (rule findOne_videoId)
  show ?thesis
  proof (cases "i = vid")
    case True
    then have "u = found" using assms Some by simp
    then show ?thesis
      using assms Some id True
      by (simp add: get_video_def get_video_find_def get_video_save_def Let_def findOne_save_existing)
  next
    case False
    then show ?thesis
      using assms Some id
      by (simp add: get_video_def get_video_find_def get_video_save_def Let_def findOne_save_existing)
  qed
qed

lemma handle_views_mono:
  assumes "findOne i (db w) = Some u"
  shows "\<exists>u'. findOne i (db (snd (handle v e w r))) = Some u' \<and> views u \<le> views u'"
proof (cases r)
  case (PostUpload f)
  from post_upload_db_shape [of v e w f] show ?thesis
  proof
    assume "db (snd (post_upload v e w f)) = db w"
    then show ?thesis using assms PostUpload by (simp add: handle_def)
  next
    assume "\<exists>x. db (snd (post_upload v e w f)) = db w @ [x]"
    then show ?thesis
      using findOne_append [OF assms] PostUpload by (auto simp: handle_def)
  qed
next
  case GetVideos
  then show ?thesis using assms by (simp add: handle_def get_videos_def)
next
  case (GetVideo vid)
  then show ?thesis using get_video_views_mono [OF assms, of e vid] by (simp add: handle_def)
next
  case (GetStream vid rangeHdr)
  then show ?thesis using assms by (cases v) (simp_all add: handle_def)
next
  case (GetMedia k)
  then show ?thesis using assms by (cases v) (simp_all add: handle_def)
next
  case GetHealth
  then show ?thesis using assms by (simp add: handle_def)
qed

text \<open>
  Claim C8: every \<open>GET /api/videos/:videoId\<close> on an existing record adds exactly 1 to
  the view count of that record, and no operation of the system ever lowers a view
  count.

  Neither half holds for every call.  When the database rejects the save, the call on
  the existing record \<open>v1\<close> is answered with 500 and the stored count stays 0.  And the
  handler writes back the count it read plus 1: a request that has read the count 0 and
  whose save comes after two other requests were served, which took the stored count
  to 2, stores the count 1.  Three calls then leave the count 1, and the last write
  lowers it from 2 to 1.
\<close>

theorem get_video_can_lose_and_lower_views:
  "fst (get_video ex_env_save_rejected ex_world ''v1'') = Response 500 (Error ''Database error'')
   \<and> map views (db (snd (get_video ex_env_save_rejected ex_world ''v1''))) = [0]
   \<and> get_video_find ex_env ex_world ''v1'' = Inr ex_video
   \<and> map views (db (snd (get_video ex_env (snd (get_video ex_env ex_world ''v1'')) ''v1''))) = [2]
   \<and> map views (db (snd (get_video_save ex_env
                           (snd (get_video ex_env (snd (get_video ex_env ex_world ''v1'')) ''v1''))
                           ex_video))) = [1]"
  by code_simp

text \<open>
  Claim C8 as amended, for requests served one after another (no other request between
  the query and the save of a handler).  A \<open>GET /api/videos/:videoId\<close> on an existing
  record whose count is below \<open>2^53\<close>, when the database answers the query and takes
  the save, returns the record and stores it with its count plus 1.  When the query or
  the save fails, the answer is 500 and the stored records are unchanged.  For every
  request on every route of both variants and every outcome of the outside, a record
  that was found before is found afterwards with a count that is not smaller.
\<close>

theorem sequential_get_adds_one_and_no_request_lowers_views:
  "(\<not> find_fails e \<and> \<not> save_fails e \<and> findOne vid (db w) = Some video \<and> int (views video) < 2 ^ 53 \<longrightarrow>
      fst (get_video e w vid) =
        Response 200 (VideoBody (video\<lparr>views := views video + 1\<rparr>)
                        (thumbnail_urls e (video\<lparr>views := views video + 1\<rparr>)))
      \<and> findOne vid (db (snd (get_video e w vid))) = Some (video\<lparr>views := views video + 1\<rparr>))
   \<and> ((find_fails e \<or> save_fails e) \<and> findOne vid (db w) = Some video \<longrightarrow>
        fst (get_video e w vid) = Response 500 (Error ''Database error'')
        \<and> db (snd (get_video e w vid)) = db w)
   \<and> (findOne i (db w) = Some u \<longrightarrow>
        (\<exists>u'. findOne i (db (snd (handle v e w r))) = Some u' \<and> views u \<le> views u'))"
  using get_video_found [of e vid w video] get_video_failed [of e vid w video]
    handle_views_mono [of i w u v e r]
  by blast

theorem sequential_get_adds_one_and_no_request_lowers_views_witness:
  "findOne ''v1'' (db (snd (get_video ex_env ex_world ''v1''))) = Some (ex_video\<lparr>views := 1\<rparr>)
   \<and> (\<exists>u'. findOne ''v1'' (db (snd (handle MinIO ex_env ex_world (GetVideo ''v1'')))) = Some u'
            \<and> views ex_video \<le> views u')
   \<and> fst (get_video ex_env_save_rejected ex_world ''v1'') = Response 500 (Error ''Database error'')
   \<and> db (snd (get_video ex_env_save_rejected ex_world ''v1'')) = db ex_world"
proof -
  have h: "\<not> find_fails ex_env \<and> \<not> save_fails ex_env \<and> findOne ''v1'' (db ex_world) = Some ex_video
           \<and> int (views ex_video) < 2 ^ 53"
    by (simp add: ex_env_def ex_world_def findOne_def ex_video_def)
  have h': "(find_fails ex_env_save_rejected \<or> save_fails ex_env_save_rejected)
            \<and> findOne ''v1'' (db ex_world) = Some ex_video"
    by (simp add: ex_env_save_rejected_def ex_world_def findOne_def ex_video_def)
  have z: "views ex_video + 1 = 1" by (simp add: ex_video_def)
  note r = sequential_get_adds_one_and_no_request_lowers_views
    [of ex_env "''v1''" ex_world ex_video "''v1''" ex_video MinIO "GetVideo ''v1''"]
  note r' = sequential_get_adds_one_and_no_request_lowers_views
    [of ex_env_save_rejected "''v1''" ex_world ex_video "''v1''" ex_video MinIO "GetVideo ''v1''"]
  show ?thesis
    using r r' h h' unfolding z by blast
qed

end
